theory Spec2Isabelle
  imports Complex_Main "HOL-Library.Sublist" "HOL-Library.AList"
begin

text \<open>
  A shallow embedding of the two evaluation scripts of the repository: the batch
  runner with its scorer, and the single-model runner. The scripts talk to a chat
  service, the clock and the file system; a run is modelled as a function of what
  these answer, and it returns the list of the events it causes.
\<close>

section \<open>Strings as the scripts use them\<close>

text \<open>
  A JavaScript string is a sequence of code units; it is modelled as a \<open>string\<close>, whose
  characters are the code units 0 to 255 (the Latin-1 range of Unicode), and
  \<open>answer.length\<close> is \<open>length\<close>. In that range \<open>toLowerCase\<close> works code unit by code
  unit: the letters A to Z and the capital letters U+00C0 to U+00DE (U+00D7, the
  multiplication sign, apart) move up by 32, everything else stays.
\<close>

definition toLowerCase_char :: "char \<Rightarrow> char" where
  "toLowerCase_char c =
     (let n = (of_char c :: nat)
      in if (65 \<le> n \<and> n \<le> 90) \<or> (192 \<le> n \<and> n \<le> 222 \<and> n \<noteq> 215)
         then char_of (n + 32) else c)"

definition toLowerCase :: "string \<Rightarrow> string" where
  "toLowerCase s = map toLowerCase_char s"

text \<open>
  \<open>a.includes(s)\<close> (here \<open>includes_str\<close>): is there a position of \<open>a\<close> at which \<open>s\<close> starts? The search runs
  over the positions from the left; the empty string is found in every string.
\<close>

fun includes_str :: "string \<Rightarrow> string \<Rightarrow> bool" where
  "includes_str [] s = (s = [])"
| "includes_str (c # cs) s = (prefix s (c # cs) \<or> includes_str cs s)"

text \<open>
  \<open>a.split(sep)\<close> for a separator of one code unit: the pieces between the occurrences
  of the separator, empty pieces kept; the empty string gives one empty piece.
\<close>

fun split_str :: "char \<Rightarrow> string \<Rightarrow> string list" where
  "split_str sep [] = [] # []"
| "split_str sep (c # cs) =
     (if c = sep then [] # split_str sep cs
      else (case split_str sep cs of
              [] \<Rightarrow> [c] # []
            | p # ps \<Rightarrow> (c # p) # ps))"

section \<open>The scorer (scoreAnswer in mumbai-llm-test)\<close>

definition scoreAnswer :: "string \<Rightarrow> int \<Rightarrow> int" where
  "scoreAnswer answer questionId =
     (let len = length answer;
          score = (50 :: int);
          score = (if len < 50 then score - 20 else score);
          score = (if len > 500 then score + 10 else score);
          score = (if includes_str answer ''sorry'' \<or> includes_str answer ''not sure''
                   then score - 15 else score);
          score = (if length (split_str CHR '' '' answer) > 100 then score + 5 else score);
          score = (if questionId = 1 \<and> includes_str (toLowerCase answer) ''vada pav''
                   then score + 20 else score);
          score = (if questionId = 12 \<and> includes_str (toLowerCase answer) ''financial capital''
                   then score + 15 else score)
      in max 0 (min 100 score))"

subsection \<open>The algorithm of the specification, in its own words\<close>

text \<open>
  \<open>contains a s\<close>: \<open>s\<close> is a substring of \<open>a\<close>, that is, \<open>a\<close> is some text, then \<open>s\<close>,
  then some text.
\<close>

definition contains :: "string \<Rightarrow> string \<Rightarrow> bool" where
  "contains a s = sublist s a"

definition is_whitespace :: "char \<Rightarrow> bool" where
  "is_whitespace c = (c \<in> set [CHR '' '', CHR 0x09, CHR 0x0A, CHR 0x0B, CHR 0x0C, CHR 0x0D])"

text \<open>
  The whitespace-delimited words of a text are its maximal runs of characters that are
  not whitespace. \<open>words_from inw cs\<close> counts the words that start in \<open>cs\<close>, where \<open>inw\<close>
  says that the character before \<open>cs\<close> belongs to a word.
\<close>

fun words_from :: "bool \<Rightarrow> string \<Rightarrow> nat" where
  "words_from inw [] = 0"
| "words_from inw (c # cs) =
     (if is_whitespace c then words_from False cs
      else (if inw then 0 else 1) + words_from True cs)"

definition word_count :: "string \<Rightarrow> nat" where
  "word_count a = words_from False a"

definition clamp :: "int \<Rightarrow> int \<Rightarrow> int \<Rightarrow> int" where
  "clamp lo hi x = (if x < lo then lo else if hi < x then hi else x)"

text \<open>
  The eight steps of section 4.3; \<open>words\<close> is the count that step 5 compares with 100.
\<close>

definition score_steps :: "(string \<Rightarrow> nat) \<Rightarrow> string \<Rightarrow> int \<Rightarrow> int" where
  "score_steps words a questionId =
     clamp 0 100
       (50
        - (if length a < 50 then 20 else 0)
        + (if length a > 500 then 10 else 0)
        - (if contains a ''sorry'' \<or> contains a ''not sure'' then 15 else 0)
        + (if words a > 100 then 5 else 0)
        + (if questionId = 1 \<and> contains (toLowerCase a) ''vada pav'' then 20 else 0)
        + (if questionId = 12 \<and> contains (toLowerCase a) ''financial capital'' then 15 else 0))"

definition score_spec :: "string \<Rightarrow> int \<Rightarrow> int" where
  "score_spec a questionId = score_steps word_count a questionId"

text \<open>
  What the code compares with 100 instead: the number of pieces between single space
  characters, which is the number of space characters plus one.
\<close>

definition space_pieces :: "string \<Rightarrow> nat" where
  "space_pieces a = Suc (count_list a CHR '' '')"

section \<open>JavaScript numbers\<close>

text \<open>
  A JavaScript number is an IEEE 754 binary64 value. A finite one is modelled by the
  rational number it stands for (negative zero is not told apart from zero: no operation
  of the scripts can show the difference). The scores are integers between 0 and 100, and
  the running total is a multiple of one half far below \<open>2 ^ 53\<close>, so the additions and
  the halving of the scripts are exact and are written as rational arithmetic; a division
  rounds its exact quotient to the nearest binary64 value, ties to the even significand.
\<close>

datatype jsnum = Finite rat | Infinity | NegInfinity | NaN

definition pow2 :: "int \<Rightarrow> rat" where
  "pow2 e = (if 0 \<le> e then 2 ^ nat e else 1 / 2 ^ nat (- e))"

function bit_length :: "int \<Rightarrow> int" where
  "bit_length n = (if n \<le> 0 then 0 else 1 + bit_length (n div 2))"
  by pat_completeness auto
termination
  by (relation "measure nat") auto

declare bit_length.simps [simp del]

text \<open>
  \<open>bit_length n\<close> is the number of binary digits of \<open>n\<close>, and \<open>floor_log2 a\<close> the
  largest \<open>k\<close> with \<open>2 ^ k \<le> a\<close>, for a positive \<open>a\<close>.
\<close>

definition floor_log2 :: "rat \<Rightarrow> int" where
  "floor_log2 a =
     (if 1 \<le> a then bit_length \<lfloor>a\<rfloor> - 1 else - bit_length (\<lceil>1 / a\<rceil> - 1))"

definition round_half_even :: "rat \<Rightarrow> int" where
  "round_half_even y =
     (let f = \<lfloor>y\<rfloor>; d = y - of_int f
      in if d < 1 / 2 then f else if 1 / 2 < d then f + 1 else if even f then f else f + 1)"

text \<open>
  Rounding to binary64: 53 significant bits, the smallest exponent that of the
  subnormal numbers, and overflow to infinity when the rounded magnitude reaches
  \<open>2 ^ 1024\<close>.
\<close>

definition round_double :: "rat \<Rightarrow> jsnum" where
  "round_double x =
     (if x = 0 then Finite 0
      else let a = \<bar>x\<bar>;
               e = max (floor_log2 a - 52) (- 1074);
               r = of_int (round_half_even (a / pow2 e)) * pow2 e
           in if 1024 \<le> floor_log2 r then (if 0 < x then Infinity else NegInfinity)
              else Finite (if 0 < x then r else - r))"

text \<open>\<open>x / y\<close> for finite operands.\<close>

definition js_div :: "rat \<Rightarrow> rat \<Rightarrow> jsnum" where
  "js_div x y =
     (if y = 0 then (if x = 0 then NaN else if 0 < x then Infinity else NegInfinity)
      else round_double (x / y))"

definition digit_char :: "int \<Rightarrow> char" where
  "digit_char d = ''0123456789'' ! nat d"

function digits10 :: "int \<Rightarrow> string" where
  "digits10 n =
     (if n < 10 then [digit_char n] else digits10 (n div 10) @ [digit_char (n mod 10)])"
  by pat_completeness auto
termination
  by (relation "measure nat") auto

declare digits10.simps [simp del]

text \<open>
  \<open>Number.prototype.toString\<close> writes a finite, positive value \<open>x\<close> with the fewest
  significant digits that still read back as \<open>x\<close>: the least \<open>k\<close> (at most 17) for which
  some integer \<open>s\<close> of \<open>k\<close> digits has \<open>s * 10 ^ (n - k)\<close> round to \<open>x\<close>, and for that
  \<open>k\<close> the \<open>s\<close> closest to \<open>x\<close> (the even one of two). Here \<open>n\<close> is the number of digits
  of the integer part (\<open>10 ^ (n - 1) \<le> x < 10 ^ n\<close>); the candidate \<open>s = 10 ^ k\<close> stands
  for the digit 1 with \<open>n + 1\<close> in the place of \<open>n\<close>.
\<close>

definition pow10 :: "int \<Rightarrow> rat" where
  "pow10 e = (if 0 \<le> e then 10 ^ nat e else 1 / 10 ^ nat (- e))"

function digit_count :: "int \<Rightarrow> int" where
  "digit_count n = (if n \<le> 0 then 0 else 1 + digit_count (n div 10))"
  by pat_completeness auto
termination
  by (relation "measure nat") auto

declare digit_count.simps [simp del]

text \<open>The largest \<open>k\<close> with \<open>10 ^ k \<le> a\<close>, for a positive \<open>a\<close>.\<close>

definition floor_log10 :: "rat \<Rightarrow> int" where
  "floor_log10 a =
     (if 1 \<le> a then digit_count \<lfloor>a\<rfloor> - 1 else - digit_count (\<lceil>1 / a\<rceil> - 1))"

definition decimal_candidate :: "rat \<Rightarrow> int \<Rightarrow> nat \<Rightarrow> int option" where
  "decimal_candidate x n k =
     (let u = pow10 (n - int k);
          lo = \<lfloor>x / u\<rfloor>;
          ok = (\<lambda>s. 10 ^ (k - 1) \<le> s \<and> s \<le> 10 ^ k \<and> round_double (of_int s * u) = Finite x);
          dist = (\<lambda>s. \<bar>of_int s * u - x\<bar>)
      in if ok lo \<and> ok (lo + 1)
         then (if dist lo < dist (lo + 1) \<or> (dist lo = dist (lo + 1) \<and> even lo)
               then Some lo else Some (lo + 1))
         else if ok lo then Some lo
         else if ok (lo + 1) then Some (lo + 1)
         else None)"

text \<open>
  The significand and the decimal exponent of the digits written, \<open>s * 10 ^ e\<close>: the
  search goes up from \<open>k\<close> digits and ends at 17.
\<close>

function first_candidate :: "rat \<Rightarrow> int \<Rightarrow> nat \<Rightarrow> int \<times> int" where
  "first_candidate x n k =
     (case decimal_candidate x n k of
        Some s \<Rightarrow> (s, n - int k)
      | None \<Rightarrow>
          if 17 \<le> k then (\<lfloor>x / pow10 (n - int k)\<rfloor>, n - int k)
          else first_candidate x n (Suc k))"
  by pat_completeness auto
termination
  by (relation "measure (\<lambda>(x, n, k). 17 - k)") auto

declare first_candidate.simps [simp del]

definition shortest_decimal :: "rat \<Rightarrow> int \<times> int" where
  "shortest_decimal x = first_candidate x (floor_log10 x + 1) 1"

text \<open>The number that the text written for a finite \<open>x\<close> denotes.\<close>

definition printed_value :: "rat \<Rightarrow> rat" where
  "printed_value x =
     (if x = 0 then 0
      else let (s, e) = shortest_decimal \<bar>x\<bar>;
               v = of_int s * pow10 e
           in if x < 0 then - v else v)"

text \<open>
  The text for \<open>x \<ge> 10 ^ 21\<close>, where \<open>toFixed\<close> falls back on \<open>toString\<close>: the digits
  without their final zeros, a point after the first one, and the exponent.
\<close>

definition toString_large :: "rat \<Rightarrow> string" where
  "toString_large x =
     (let (s, e) = shortest_decimal x;
          n = int (length (digits10 s)) + e;
          ds = rev (dropWhile (\<lambda>c. c = CHR ''0'') (rev (digits10 s)))
      in (if length ds = 1 then ds else take 1 ds @ ''.'' @ drop 1 ds)
         @ ''e+'' @ digits10 (n - 1))"

text \<open>
  \<open>x.toFixed(1)\<close>: a value that is not finite gives its name; otherwise the sign, then
  the integer \<open>n\<close> for which \<open>n / 10\<close> is closest to the magnitude (the larger one of
  two), written with at least two digits and a point before the last one.
\<close>

definition toFixed1 :: "jsnum \<Rightarrow> string" where
  "toFixed1 v =
     (case v of
        NaN \<Rightarrow> ''NaN''
      | Infinity \<Rightarrow> ''Infinity''
      | NegInfinity \<Rightarrow> ''-Infinity''
      | Finite x \<Rightarrow>
          (let s = (if x < 0 then ''-'' else []);
               a = \<bar>x\<bar>
           in if 10 ^ 21 \<le> a then s @ toString_large a
              else let m = digits10 \<lfloor>a * 10 + 1 / 2\<rfloor>;
                       m = (if length m \<le> 1 then replicate (2 - length m) CHR ''0'' @ m else m);
                       k = length m
                   in s @ take (k - 1) m @ ''.'' @ drop (k - 1) m))"

section \<open>Batch mode (runTests in mumbai-llm-test)\<close>

subsection \<open>Data\<close>

record question =
  qid :: int
  category :: string
  english :: string
  hindi :: string

datatype jsval = JNum jsnum | JStr string

record answer_record =
  question :: string
  answer :: string
  time_sec :: jsnum
  chars :: nat
  score :: int

text \<open>
  An entry of a model's result list: \<open>{id, category, english, hindi}\<close>, or
  \<open>{id, error}\<close> for a question that failed.
\<close>

datatype model_result =
    Answered int string answer_record answer_record
  | Errored int string

record model_summary =
  avg_score :: jsval
  total_questions :: nat
  details_file :: string

record final_report =
  start_time :: string
  models :: "(string \<times> model_summary) list"
  end_time :: string

definition MODELS :: "string list" where
  "MODELS = [''llama3'', ''mistral'', ''phi3'', ''gemma:7b'', ''neural-chat'']"

definition RESULTS_DIR :: string where
  "RESULTS_DIR = ''mumbai_llm_results''"

definition resultFile :: "string \<Rightarrow> string" where
  "resultFile model = model @ ''_results.json''"

definition resultPath :: "string \<Rightarrow> string" where
  "resultPath model = RESULTS_DIR @ ''/'' @ resultFile model"

definition reportPath :: string where
  "reportPath = RESULTS_DIR @ ''/'' @ ''final_report.json''"

subsection \<open>The world outside the script\<close>

text \<open>
  What the script does to the world is recorded as a list of events, in the order of
  execution: the requests to the chat service, the pauses, the console lines, the
  progress bar and the file writes (with the data written, and whether the write
  succeeded).
\<close>

datatype lang = EN | HI

datatype batch_event =
    LogTesting string
  | ListModels
  | WarnSkip string
  | BarStart nat
  | BarUpdate nat
  | BarStop
  | Chat string string
  | Sleep nat
  | ErrFailed int string
  | WriteResults string "model_result list" bool
  | WriteReport string final_report bool
  | LogComplete
  | ErrUnexpected string

text \<open>
  What the world answers is a parameter of the run. The script is sequential and
  deterministic, and in one run it lists the installed models once for each configured
  model, chats once for each model, question and language, and writes each path once;
  so the answers are given by the place of the call: \<open>list_models env model\<close> is the
  answer to \<open>ollama.list()\<close> during the check of \<open>model\<close> (the installed names, or
  \<open>Inl\<close> the message of the error thrown), \<open>chat env model index l\<close> the answer to the
  chat for the question at \<open>index\<close> in language \<open>l\<close> (the content of the reply, or
  \<open>Inl\<close> the message of whatever is thrown: a failed call, a timeout, a reply without
  a message), \<open>clock env model index l\<close> the two readings of \<open>Date.now()\<close> around that
  call, \<open>write_error env path\<close> the error of \<open>fs.writeFile\<close> on \<open>path\<close>, if it fails.
\<close>

record batch_env =
  list_models :: "string \<Rightarrow> string + string list"
  chat :: "string \<Rightarrow> nat \<Rightarrow> lang \<Rightarrow> string + string"
  clock :: "string \<Rightarrow> nat \<Rightarrow> lang \<Rightarrow> int \<times> int"
  write_error :: "string \<Rightarrow> string option"
  start_stamp :: string
  end_stamp :: string

subsection \<open>isModelAvailable\<close>

text \<open>
  The body of the \<open>try\<close>: it throws when the list query does. The function catches
  everything and answers \<open>false\<close>. Results are \<open>Inl\<close> an error thrown or \<open>Inr\<close> the value
  returned.
\<close>

definition isModelAvailable_try :: "batch_env \<Rightarrow> string \<Rightarrow> string + bool" where
  "isModelAvailable_try env model =
     (case list_models env model of
        Inl err \<Rightarrow> Inl err
      | Inr names \<Rightarrow> Inr (list_ex (prefix model) names))"

definition isModelAvailable :: "batch_env \<Rightarrow> string \<Rightarrow> string + bool" where
  "isModelAvailable env model =
     (case isModelAvailable_try env model of
        Inl err \<Rightarrow> Inr False
      | Inr b \<Rightarrow> Inr b)"

subsection \<open>runTests\<close>

text \<open>
  The body of the \<open>try\<close> for one question: the events, and either the message of the
  error thrown or the entry pushed with the amount added to \<open>totalScore\<close>.
\<close>

definition try_question ::
  "batch_env \<Rightarrow> string \<Rightarrow> nat \<Rightarrow> question \<Rightarrow> batch_event list \<times> (string + model_result \<times> rat)"
where
  "try_question env model index q =
     (case chat env model index EN of
        Inl err \<Rightarrow> ([Chat model (english q)], Inl err)
      | Inr contentEN \<Rightarrow>
          (let (startEN, endEN) = clock env model index EN;
               timeEN = js_div (of_int (endEN - startEN)) 1000;
               scoreEN = scoreAnswer contentEN (qid q)
           in case chat env model index HI of
                Inl err \<Rightarrow> ([Chat model (english q), Sleep 1000, Chat model (hindi q)], Inl err)
              | Inr contentHI \<Rightarrow>
                  (let (startHI, endHI) = clock env model index HI;
                       timeHI = js_div (of_int (endHI - startHI)) 1000;
                       scoreHI = scoreAnswer contentHI (qid q)
                   in ([Chat model (english q), Sleep 1000, Chat model (hindi q)],
                       Inr (Answered (qid q) (category q)
                              \<lparr>question = english q, answer = contentEN, time_sec = timeEN,
                               chars = length contentEN, score = scoreEN\<rparr>
                              \<lparr>question = hindi q, answer = contentHI, time_sec = timeHI,
                               chars = length contentHI, score = scoreHI\<rparr>,
                            of_int (scoreEN + scoreHI) / 2)))))"

text \<open>
  One turn of the loop over the questions, on \<open>modelResults\<close> and \<open>totalScore\<close>: the
  \<open>try\<close>, the \<open>catch\<close>, then the progress bar and the pause.
\<close>

definition question_step ::
  "batch_env \<Rightarrow> string \<Rightarrow> nat \<Rightarrow> question \<Rightarrow> model_result list \<times> rat
     \<Rightarrow> batch_event list \<times> model_result list \<times> rat"
where
  "question_step env model index q acc =
     (let (modelResults, totalScore) = acc;
          (evs, r) = try_question env model index q
      in case r of
           Inr (entry, half) \<Rightarrow>
             (evs @ [BarUpdate (index + 1), Sleep 1500],
              modelResults @ [entry], totalScore + half)
         | Inl msg \<Rightarrow>
             (evs @ [ErrFailed (qid q) msg, BarUpdate (index + 1), Sleep 1500],
              modelResults @ [Errored (qid q) msg], totalScore))"

fun question_loop ::
  "batch_env \<Rightarrow> string \<Rightarrow> nat \<Rightarrow> question list \<Rightarrow> model_result list \<times> rat
     \<Rightarrow> batch_event list \<times> model_result list \<times> rat"
where
  "question_loop env model index [] acc = ([], acc)"
| "question_loop env model index (q # qs) acc =
     (let (evs, acc') = question_step env model index q acc;
          (evs', acc'') = question_loop env model (Suc index) qs acc'
      in (evs @ evs', acc''))"

text \<open>
  One turn of the loop over the models, on \<open>finalReport.models\<close>: the events, and either
  the error that leaves \<open>runTests\<close> or the mapping after the turn. Setting a property of
  the object replaces the value of a key that is there and appends a new key.
\<close>

definition test_model ::
  "batch_env \<Rightarrow> question list \<Rightarrow> string \<Rightarrow> (string \<times> model_summary) list
     \<Rightarrow> batch_event list \<times> (string + (string \<times> model_summary) list)"
where
  "test_model env QUESTIONS model ms =
     (case isModelAvailable env model of
        Inl err \<Rightarrow> ([LogTesting model, ListModels], Inl err)
      | Inr False \<Rightarrow> ([LogTesting model, ListModels, WarnSkip model], Inr ms)
      | Inr True \<Rightarrow>
          (let (evs, modelResults, totalScore) = question_loop env model 0 QUESTIONS ([], 0);
               run = [LogTesting model, ListModels, BarStart (length QUESTIONS)] @ evs @ [BarStop]
           in case write_error env (resultPath model) of
                Some err \<Rightarrow> (run @ [WriteResults (resultPath model) modelResults False], Inl err)
              | None \<Rightarrow>
                  (run @ [WriteResults (resultPath model) modelResults True],
                   Inr (AList.update model
                          \<lparr>avg_score =
                             JStr (toFixed1 (js_div totalScore (of_nat (length QUESTIONS)))),
                           total_questions = length QUESTIONS,
                           details_file = resultFile model\<rparr> ms))))"

fun model_loop ::
  "batch_env \<Rightarrow> question list \<Rightarrow> string list \<Rightarrow> (string \<times> model_summary) list
     \<Rightarrow> batch_event list \<times> (string + (string \<times> model_summary) list)"
where
  "model_loop env QUESTIONS [] ms = ([], Inr ms)"
| "model_loop env QUESTIONS (model # rest) ms =
     (case test_model env QUESTIONS model ms of
        (evs, Inl err) \<Rightarrow> (evs, Inl err)
      | (evs, Inr ms') \<Rightarrow>
          (let (evs', r) = model_loop env QUESTIONS rest ms' in (evs @ evs', r)))"

definition runTests :: "batch_env \<Rightarrow> question list \<Rightarrow> batch_event list \<times> (string + unit)" where
  "runTests env QUESTIONS =
     (case model_loop env QUESTIONS MODELS [] of
        (evs, Inl err) \<Rightarrow> (evs, Inl err)
      | (evs, Inr ms) \<Rightarrow>
          (let finalReport = \<lparr>start_time = start_stamp env, models = ms, end_time = end_stamp env\<rparr>
           in case write_error env reportPath of
                Some err \<Rightarrow> (evs @ [WriteReport reportPath finalReport False], Inl err)
              | None \<Rightarrow> (evs @ [WriteReport reportPath finalReport True, LogComplete], Inr ())))"

text \<open>
  The last statement of the script, \<open>runTests().catch(...)\<close>, for a list of questions
  that was loaded: all the events of the run.
\<close>

definition batch_run :: "batch_env \<Rightarrow> question list \<Rightarrow> batch_event list" where
  "batch_run env QUESTIONS =
     (case runTests env QUESTIONS of
        (evs, Inl err) \<Rightarrow> evs @ [ErrUnexpected err]
      | (evs, Inr _) \<Rightarrow> evs)"

subsection \<open>What the batch claims speak about\<close>

text \<open>
  The share of question \<open>index\<close> in the numerator of a model's average: the mean of its
  two scores when both chats answered, nothing when the question failed.
\<close>

definition contribution :: "batch_env \<Rightarrow> string \<Rightarrow> nat \<Rightarrow> question \<Rightarrow> rat" where
  "contribution env model index q =
     (case (chat env model index EN, chat env model index HI) of
        (Inr contentEN, Inr contentHI) \<Rightarrow>
          of_int (scoreAnswer contentEN (qid q) + scoreAnswer contentHI (qid q)) / 2
      | _ \<Rightarrow> 0)"

definition score_total :: "batch_env \<Rightarrow> string \<Rightarrow> question list \<Rightarrow> rat" where
  "score_total env model qs = (\<Sum>i < length qs. contribution env model i (qs ! i))"

definition is_chat_of :: "string \<Rightarrow> batch_event \<Rightarrow> bool" where
  "is_chat_of model ev = (case ev of Chat m _ \<Rightarrow> m = model | _ \<Rightarrow> False)"

definition is_write_to :: "string \<Rightarrow> batch_event \<Rightarrow> bool" where
  "is_write_to path ev =
     (case ev of WriteResults p _ _ \<Rightarrow> p = path | WriteReport p _ _ \<Rightarrow> p = path | _ \<Rightarrow> False)"

definition is_report :: "batch_event \<Rightarrow> bool" where
  "is_report ev = (case ev of WriteReport _ _ _ \<Rightarrow> True | _ \<Rightarrow> False)"

definition entry_id :: "model_result \<Rightarrow> int" where
  "entry_id r = (case r of Answered i _ _ _ \<Rightarrow> i | Errored i _ \<Rightarrow> i)"

section \<open>Single-model mode (askOllama.js)\<close>

subsection \<open>Data\<close>

text \<open>
  A JSON file is missing, or its text does not parse, or it is a JSON document. A
  document (\<open>json\<close>) is what the text says: its numbers are the decimal numbers
  written, and an object lists its members in the order of the text, a name perhaps more
  than once. The questions file parses to a list of question records.
\<close>

datatype json =
    JNull
  | JBool bool
  | JNumber rat
  | JString string
  | JArray "json list"
  | JObject "(string \<times> json) list"

text \<open>
  What the script holds after \<open>JSON.parse\<close> is a JavaScript value (\<open>jsvalue\<close>): its
  numbers are binary64 values, and an object has each property name once, the integer
  indices first in ascending order, then the other names in the order of creation.
\<close>

datatype jsvalue =
    VNull
  | VBool bool
  | VNumber jsnum
  | VString string
  | VArray "jsvalue list"
  | VObject "(string \<times> jsvalue) list"

text \<open>
  An array index is the canonical decimal text of an integer from 0 to \<open>2 ^ 32 - 2\<close>.
\<close>

definition index_value :: "string \<Rightarrow> int" where
  "index_value k = foldl (\<lambda>a c. 10 * a + (of_char c - 48)) 0 k"

definition is_array_index :: "string \<Rightarrow> bool" where
  "is_array_index k =
     (k \<noteq> [] \<and> list_all (\<lambda>c. 48 \<le> (of_char c :: nat) \<and> (of_char c :: nat) \<le> 57) k \<and>
      (k = ''0'' \<or> hd k \<noteq> CHR ''0'') \<and> index_value k < 2 ^ 32 - 1)"

text \<open>
  The properties of the object that \<open>JSON.parse\<close> builds from the members of the text:
  each member sets its property, so a name that comes again keeps its place and takes
  the later value; then the order in which the properties are enumerated.
\<close>

definition create_properties :: "(string \<times> 'v) list \<Rightarrow> (string \<times> 'v) list" where
  "create_properties members = foldl (\<lambda>obj (k, v). AList.update k v obj) [] members"

definition property_order :: "(string \<times> 'v) list \<Rightarrow> (string \<times> 'v) list" where
  "property_order obj =
     sort_key (\<lambda>p. index_value (fst p)) (filter (\<lambda>p. is_array_index (fst p)) obj)
     @ filter (\<lambda>p. \<not> is_array_index (fst p)) obj"

text \<open>
  \<open>JSON.parse\<close>, from the document to the value: a number becomes the nearest binary64
  value, which is infinite for a number too large.
\<close>

fun JSON_parse :: "json \<Rightarrow> jsvalue" where
  "JSON_parse JNull = VNull"
| "JSON_parse (JBool b) = VBool b"
| "JSON_parse (JNumber r) = VNumber (round_double r)"
| "JSON_parse (JString s) = VString s"
| "JSON_parse (JArray xs) = VArray (map JSON_parse xs)"
| "JSON_parse (JObject members) =
     VObject (property_order (create_properties (map (map_prod id JSON_parse) members)))"

text \<open>
  \<open>JSON.stringify\<close>, from the value to the document that its text is: a finite number
  is written with the digits of \<open>Number.prototype.toString\<close>, a number that is not
  finite as \<open>null\<close>, the properties of an object in their order.
\<close>

fun JSON_stringify :: "jsvalue \<Rightarrow> json" where
  "JSON_stringify VNull = JNull"
| "JSON_stringify (VBool b) = JBool b"
| "JSON_stringify (VNumber (Finite x)) = JNumber (printed_value x)"
| "JSON_stringify (VNumber _) = JNull"
| "JSON_stringify (VString s) = JString s"
| "JSON_stringify (VArray vs) = JArray (map JSON_stringify vs)"
| "JSON_stringify (VObject props) = JObject (map (map_prod id JSON_stringify) props)"

datatype 'a file_state = Missing | Unparsable | Parsed 'a

record files =
  questions_json :: "question list file_state"
  results_json :: "json file_state"

definition RESULTS_FILE :: string where
  "RESULTS_FILE = ''./results.json''"

definition MODEL_NAME :: string where
  "MODEL_NAME = ''llama3''"

definition DELAY_BETWEEN_QUESTIONS :: nat where
  "DELAY_BETWEEN_QUESTIONS = 2000"

subsection \<open>The world outside the script\<close>

text \<open>
  The events of a run: the chat requests (model, content, timeout), the console lines,
  the writes of the results file (the document written, success) and the pauses. The answers of the
  world, by the place of the call: to the ping of \<open>checkOllama\<close>, to the chat for the
  question at an index, the time stamp taken for that question, and the error of the
  write in \<open>initResultsFile\<close> and of the write after the question at an index, if it
  fails.
\<close>

datatype single_event =
    ChatRequest string string nat
  | ErrConnection string
  | LogQuestion nat nat string
  | LogAnswer nat string
  | WriteFile string json bool
  | Delay nat
  | ErrQuestion nat string
  | ErrRejected string

record single_env =
  ping_reply :: "string + string"
  question_reply :: "nat \<Rightarrow> string + string"
  timestamp :: "nat \<Rightarrow> string"
  init_write_error :: "string option"
  question_write_error :: "nat \<Rightarrow> string option"

text \<open>How a call ends: it returns, it throws, or the process exits with a code.\<close>

datatype outcome = Returned | Thrown string | Exited nat

subsection \<open>initResultsFile and checkOllama\<close>

text \<open>
  \<open>initResultsFile\<close>: when the file is not there, write \<open>[]\<close>. The result is the events,
  the results file afterwards, and the error thrown if the write failed.
\<close>

definition initResultsFile ::
  "single_env \<Rightarrow> json file_state \<Rightarrow> single_event list \<times> json file_state \<times> string option"
where
  "initResultsFile env rf =
     (case rf of
        Missing \<Rightarrow>
          (case init_write_error env of
             Some err \<Rightarrow> ([WriteFile RESULTS_FILE (JArray []) False], Missing, Some err)
           | None \<Rightarrow> ([WriteFile RESULTS_FILE (JArray []) True], Parsed (JArray []), None))
      | _ \<Rightarrow> ([], rf, None))"

definition checkOllama :: "single_env \<Rightarrow> single_event list \<times> outcome" where
  "checkOllama env =
     (case ping_reply env of
        Inr _ \<Rightarrow> ([ChatRequest MODEL_NAME ''ping'' 5000], Returned)
      | Inl err \<Rightarrow> ([ChatRequest MODEL_NAME ''ping'' 5000, ErrConnection err], Exited 1))"

subsection \<open>processQuestions\<close>

text \<open>
  The object \<open>{id, question, answer, timestamp}\<close> built for a question that was
  answered; the \<open>id\<close> of a question is an integer that it holds as a number.
\<close>

definition result_entry :: "single_env \<Rightarrow> nat \<Rightarrow> question \<Rightarrow> string \<Rightarrow> jsvalue" where
  "result_entry env index questionObj content =
     VObject [(''id'', VNumber (Finite (of_int (qid questionObj)))),
              (''question'', VString (english questionObj)),
              (''answer'', VString content),
              (''timestamp'', VString (timestamp env index))]"

text \<open>
  The body of the \<open>try\<close> for one question, on \<open>existingResults\<close>: the events, the value
  of \<open>existingResults\<close> afterwards (the push comes before the write, so a failed write
  leaves the new entry in it), and the error thrown, if any. A value that is not an
  array has no \<open>push\<close>: calling it throws. The write puts \<open>JSON.stringify\<close> of the
  whole value in the file.
\<close>

definition try_ask ::
  "single_env \<Rightarrow> nat \<Rightarrow> nat \<Rightarrow> question \<Rightarrow> jsvalue
     \<Rightarrow> single_event list \<times> jsvalue \<times> string option"
where
  "try_ask env n index questionObj existingResults =
     (let log = LogQuestion (index + 1) n (english questionObj);
          req = ChatRequest MODEL_NAME (english questionObj) 30000
      in case question_reply env index of
           Inl err \<Rightarrow> ([log, req], existingResults, Some err)
         | Inr content \<Rightarrow>
             (let result = result_entry env index questionObj content;
                  shown = LogAnswer (length content) (take 100 content)
              in case existingResults of
                   VArray entries \<Rightarrow>
                     (let pushed = VArray (entries @ [result])
                      in case question_write_error env index of
                           Some err \<Rightarrow>
                             ([log, req, shown,
                               WriteFile RESULTS_FILE (JSON_stringify pushed) False],
                              pushed, Some err)
                         | None \<Rightarrow>
                             ([log, req, shown,
                               WriteFile RESULTS_FILE (JSON_stringify pushed) True,
                               Delay DELAY_BETWEEN_QUESTIONS],
                              pushed, None))
                 | _ \<Rightarrow> ([log, req, shown], existingResults, Some ''TypeError'')))"

text \<open>One turn of the loop: the \<open>try\<close>, and the \<open>catch\<close> that logs the failure.\<close>

definition ask_step ::
  "single_env \<Rightarrow> nat \<Rightarrow> nat \<Rightarrow> question \<Rightarrow> jsvalue \<Rightarrow> single_event list \<times> jsvalue"
where
  "ask_step env n index questionObj existingResults =
     (case try_ask env n index questionObj existingResults of
        (evs, existing', Some err) \<Rightarrow> (evs @ [ErrQuestion (index + 1) err], existing')
      | (evs, existing', None) \<Rightarrow> (evs, existing'))"

fun ask_loop ::
  "single_env \<Rightarrow> nat \<Rightarrow> nat \<Rightarrow> question list \<Rightarrow> jsvalue \<Rightarrow> single_event list"
where
  "ask_loop env n index [] existingResults = []"
| "ask_loop env n index (questionObj # rest) existingResults =
     (let (evs, existing') = ask_step env n index questionObj existingResults
      in evs @ ask_loop env n (Suc index) rest existing')"

definition processQuestions :: "single_env \<Rightarrow> files \<Rightarrow> single_event list \<times> outcome" where
  "processQuestions env fs =
     (case initResultsFile env (results_json fs) of
        (evs0, rf, Some err) \<Rightarrow> (evs0, Thrown err)
      | (evs0, rf, None) \<Rightarrow>
          (case checkOllama env of
             (evs1, Exited code) \<Rightarrow> (evs0 @ evs1, Exited code)
           | (evs1, Thrown err) \<Rightarrow> (evs0 @ evs1, Thrown err)
           | (evs1, Returned) \<Rightarrow>
               (case questions_json fs of
                  Missing \<Rightarrow> (evs0 @ evs1, Thrown ''ENOENT'')
                | Unparsable \<Rightarrow> (evs0 @ evs1, Thrown ''SyntaxError'')
                | Parsed questions \<Rightarrow>
                    (case rf of
                       Missing \<Rightarrow> (evs0 @ evs1, Thrown ''ENOENT'')
                     | Unparsable \<Rightarrow> (evs0 @ evs1, Thrown ''SyntaxError'')
                     | Parsed document \<Rightarrow>
                         (evs0 @ evs1
                            @ ask_loop env (length questions) 0 questions
                                (JSON_parse document),
                          Returned)))))"

text \<open>
  The last statement of the script, \<open>processQuestions().catch(console.error)\<close>: the events
  of the run and the exit code of the process.
\<close>

definition single_run :: "single_env \<Rightarrow> files \<Rightarrow> single_event list \<times> nat" where
  "single_run env fs =
     (case processQuestions env fs of
        (evs, Returned) \<Rightarrow> (evs, 0)
      | (evs, Thrown err) \<Rightarrow> (evs @ [ErrRejected err], 0)
      | (evs, Exited code) \<Rightarrow> (evs, code))"

subsection \<open>What the single-model claims speak about\<close>

definition is_question_failure :: "single_event \<Rightarrow> bool" where
  "is_question_failure ev = (case ev of ErrQuestion _ _ \<Rightarrow> True | _ \<Rightarrow> False)"

definition is_write :: "single_event \<Rightarrow> bool" where
  "is_write ev = (case ev of WriteFile _ _ _ \<Rightarrow> True | _ \<Rightarrow> False)"

definition is_chat :: "single_event \<Rightarrow> bool" where
  "is_chat ev = (case ev of ChatRequest _ _ _ \<Rightarrow> True | _ \<Rightarrow> False)"

definition is_ping :: "single_event \<Rightarrow> bool" where
  "is_ping ev = (ev = ChatRequest MODEL_NAME ''ping'' 5000)"





section \<open>Sample runs\<close>

text \<open>Concrete inputs, on which the theorems below are instantiated.\<close>

definition sample_questions :: "question list" where
  "sample_questions =
     [\<lparr>qid = 1, category = ''food'', english = ''What is vada pav?'',
       hindi = ''Vada pav kya hai?''\<rparr>,
      \<lparr>qid = 12, category = ''economy'', english = ''Why is Mumbai the financial capital?'',
       hindi = ''Mumbai vittiya rajdhani kyon hai?''\<rparr>]"

text \<open>
  Only llama3 is installed; the first question is answered in both languages, every
  chat for the second one times out; all writes succeed.
\<close>

definition world_one_model :: batch_env where
  "world_one_model =
     \<lparr>list_models = (\<lambda>model. Inr [''llama3:latest'']),
      chat = (\<lambda>model index l.
                if index = 0 then (case l of EN \<Rightarrow> Inr ''A snack'' | HI \<Rightarrow> Inr ''sorry'')
                else Inl ''timeout''),
      clock = (\<lambda>model index l. (1000, 2500)),
      write_error = (\<lambda>path. None),
      start_stamp = ''2024-01-01T00:00:00.000Z'',
      end_stamp = ''2024-01-01T00:01:00.000Z''\<rparr>"

text \<open>The same world, where the result file of llama3 cannot be written.\<close>

definition world_write_fails :: batch_env where
  "world_write_fails =
     world_one_model
       \<lparr>list_models := (\<lambda>model. Inr [''llama3:latest'', ''mistral:latest'']),
        write_error := (\<lambda>path. if path = resultPath ''llama3'' then Some ''EACCES'' else None)\<rparr>"

text \<open>The chat service cannot be reached.\<close>

definition world_down :: batch_env where
  "world_down = world_one_model \<lparr>list_models := (\<lambda>model. Inl ''ECONNREFUSED'')\<rparr>"

definition report_one_model :: final_report where
  "report_one_model =
     \<lparr>start_time = ''2024-01-01T00:00:00.000Z'',
      models = [(''llama3'', \<lparr>avg_score = JStr ''11.3'', total_questions = 2,
                             details_file = ''llama3_results.json''\<rparr>)],
      end_time = ''2024-01-01T00:01:00.000Z''\<rparr>"

definition results_one_model :: "model_result list" where
  "results_one_model =
     [Answered 1 ''food''
        \<lparr>question = ''What is vada pav?'', answer = ''A snack'',
         time_sec = Finite (3 / 2), chars = 7, score = 30\<rparr>
        \<lparr>question = ''Vada pav kya hai?'', answer = ''sorry'',
         time_sec = Finite (3 / 2), chars = 5, score = 15\<rparr>,
      Errored 12 ''timeout'']"

definition events_one_model :: "batch_event list" where
  "events_one_model =
     [Chat ''llama3'' ''What is vada pav?'', Sleep 1000,
      Chat ''llama3'' ''Vada pav kya hai?'', BarUpdate 1, Sleep 1500,
      Chat ''llama3'' ''Why is Mumbai the financial capital?'',
      ErrFailed 12 ''timeout'', BarUpdate 2, Sleep 1500]"

definition avg_scores :: "batch_event list \<Rightarrow> (string \<times> jsval) list list" where
  "avg_scores evs =
     concat (map (\<lambda>ev. case ev of
                          WriteReport _ rep _ \<Rightarrow> [map (\<lambda>(m, s). (m, avg_score s)) (models rep)]
                        | _ \<Rightarrow> []) evs)"

text \<open>Single-model mode: two questions and an empty results file.\<close>

definition sample_files :: files where
  "sample_files =
     \<lparr>questions_json = Parsed sample_questions, results_json = Parsed (JArray [])\<rparr>"

text \<open>Every chat call fails, the ping as well.\<close>

definition service_down :: single_env where
  "service_down =
     \<lparr>ping_reply = Inl ''ECONNREFUSED'',
      question_reply = (\<lambda>index. Inl ''ECONNREFUSED''),
      timestamp = (\<lambda>index. ''2024-01-01T00:00:00.000Z''),
      init_write_error = None,
      question_write_error = (\<lambda>index. None)\<rparr>"

text \<open>The ping is answered, every chat for a question fails.\<close>

definition questions_fail :: single_env where
  "questions_fail = service_down \<lparr>ping_reply := Inr ''pong''\<rparr>"

text \<open>The ping is answered; the first question fails and the second is answered.\<close>

definition first_fails :: single_env where
  "first_fails =
     questions_fail
       \<lparr>question_reply := (\<lambda>index. if index = 0 then Inl ''timeout'' else Inr ''The stock exchange'')\<rparr>"

definition second_entry :: json where
  "second_entry =
     JObject [(''id'', JNumber 12),
              (''question'', JString ''Why is Mumbai the financial capital?''),
              (''answer'', JString ''The stock exchange''),
              (''timestamp'', JString ''2024-01-01T00:00:00.000Z'')]"

text \<open>No results file yet.\<close>

definition files_absent :: files where
  "files_absent = sample_files \<lparr>results_json := Missing\<rparr>"


section \<open>Properties of the scorer\<close>

lemma includes_iff_sublist: "includes_str a s \<longleftrightarrow> sublist s a"
  by (induction a) (auto simp: sublist_Cons_right)

lemma split_str_not_Nil: "split_str sep cs \<noteq> []"
  by (induction cs) (auto split: list.splits)

lemma length_split_str: "length (split_str sep cs) = Suc (count_list cs sep)"
proof (induction cs)
  case Nil
  show ?case by simp
next
  case (Cons c cs)
  show ?case
  proof (cases "c = sep")
    case True
    with Cons show ?thesis by simp
  next
    case False
    obtain p ps where ps: "split_str sep cs = p # ps"
      using split_str_not_Nil [of sep cs] by (cases "split_str sep cs") auto
    with Cons False show ?thesis by simp
  qed
qed

lemma words_from_spaces: "words_from inw (replicate n CHR '' '') = 0"
  by (induction n arbitrary: inw) (simp_all add: is_whitespace_def)

lemma not_sublist_replicate: "x \<in> set s \<Longrightarrow> x \<noteq> c \<Longrightarrow> \<not> sublist s (replicate n c)"
  using set_mono_sublist [of s "replicate n c"] by (auto simp: subset_iff)

lemma count_list_replicate: "count_list (replicate n c) c = n"
  by (induction n) simp_all

text \<open>
  C1 (as amended): scoreAnswer is the algorithm of section 4.3 step by step, with
  step 5 reading "add 5 if the number of pieces of the answer between single space
  characters (the number of spaces plus one) exceeds 100".
\<close>

theorem scoreAnswer_steps:
  "scoreAnswer a questionId = score_steps space_pieces a questionId"
proof -
  have sub: "(if b then x - k else x) = x - (if b then k else 0)" for b and x k :: int
    by simp
  have add: "(if b then x + k else x) = x + (if b then k else 0)" for b and x k :: int
    by simp
  have cl: "max 0 (min 100 x) = clamp 0 100 x" for x :: int
    by (simp add: clamp_def)
  show ?thesis
    unfolding scoreAnswer_def Let_def score_steps_def space_pieces_def contains_def
      includes_iff_sublist length_split_str sub add cl
    by (rule refl)
qed

text \<open>
  C1 (as stated) fails: an answer of 101 spaces has no word, and 102 pieces.
\<close>

theorem scoreAnswer_word_count_counterexample:
  "scoreAnswer (replicate 101 CHR '' '') 0 = 55 \<and> score_spec (replicate 101 CHR '' '') 0 = 50"
proof -
  define a where "a = replicate 101 CHR '' ''"
  have s1: "\<not> sublist ''sorry'' a"
    unfolding a_def by (rule not_sublist_replicate [of "CHR ''s''"]) simp_all
  have s2: "\<not> sublist ''not sure'' a"
    unfolding a_def by (rule not_sublist_replicate [of "CHR ''n''"]) simp_all
  have len: "length a = 101"
    by (simp only: a_def length_replicate)
  have cnt: "count_list a CHR '' '' = 101"
    by (simp only: a_def count_list_replicate)
  have wds: "words_from False a = 0"
    by (simp only: a_def words_from_spaces)
  have code: "scoreAnswer a 0 = 55"
    by (simp add: scoreAnswer_def Let_def includes_iff_sublist s1 s2 length_split_str len cnt)
  have spec: "score_spec a 0 = 50"
    by (simp add: score_spec_def score_steps_def clamp_def contains_def s1 s2 word_count_def
        wds len)
  show ?thesis
    by (rule conjI [OF code [unfolded a_def] spec [unfolded a_def]])
qed

text \<open>The amended statement at an answer that apologises, for question 1.\<close>

theorem scoreAnswer_steps_witness:
  "scoreAnswer ''sorry'' 1 = score_steps space_pieces ''sorry'' 1 \<and>
   scoreAnswer ''sorry'' 1 = 15"
  using scoreAnswer_steps [of "''sorry''" 1]
  by (simp add: scoreAnswer_def toLowerCase_def toLowerCase_char_def Let_def)

section \<open>Properties of batch mode\<close>

lemma isModelAvailable_value:
  "isModelAvailable env m =
     Inr (case list_models env m of Inl e \<Rightarrow> False | Inr names \<Rightarrow> list_ex (prefix m) names)"
  by (simp add: isModelAvailable_def isModelAvailable_try_def split: sum.splits)

lemma try_question_events:
  "ev \<in> set (fst (try_question env m i q)) \<Longrightarrow> (\<exists>p. ev = Chat m p) \<or> ev = Sleep 1000"
  by (auto simp: try_question_def Let_def split: sum.splits prod.splits)

lemma question_step_events:
  "ev \<in> set (fst (question_step env m i q acc)) \<Longrightarrow>
     (\<exists>p. ev = Chat m p) \<or> (\<exists>n. ev = Sleep n) \<or> (\<exists>k e. ev = ErrFailed k e) \<or> (\<exists>k. ev = BarUpdate k)"
  using try_question_events [of ev env m i q]
  by (auto simp: question_step_def Let_def split: sum.splits prod.splits)

lemma question_loop_events:
  "ev \<in> set (fst (question_loop env m i qs acc)) \<Longrightarrow>
     (\<exists>p. ev = Chat m p) \<or> (\<exists>n. ev = Sleep n) \<or> (\<exists>k e. ev = ErrFailed k e) \<or> (\<exists>k. ev = BarUpdate k)"
proof (induction qs arbitrary: i acc ev)
  case Nil
  then show ?case by simp
next
  case (Cons q qs)
  obtain evs acc' where step: "question_step env m i q acc = (evs, acc')"
    by (cases "question_step env m i q acc") auto
  obtain evs' acc'' where rest: "question_loop env m (Suc i) qs acc' = (evs', acc'')"
    by (cases "question_loop env m (Suc i) qs acc'") auto
  from Cons.prems step rest have "ev \<in> set evs \<or> ev \<in> set evs'"
    by simp
  then show ?case
  proof
    assume "ev \<in> set evs"
    with step question_step_events [of ev env m i q acc] show ?thesis by simp
  next
    assume "ev \<in> set evs'"
    with rest Cons.IH [of ev "Suc i" acc'] show ?thesis by simp
  qed
qed

lemma question_step_acc:
  "question_step env m i q (rs, t) = (evs, rs', t') \<Longrightarrow>
     (\<exists>r. rs' = rs @ [r] \<and> entry_id r = qid q) \<and> t' = t + contribution env m i q"
  by (auto simp: question_step_def try_question_def contribution_def entry_id_def Let_def
      split: sum.splits prod.splits)

lemma question_loop_acc:
  "question_loop env m i qs (rs, t) = (evs, rs', t') \<Longrightarrow>
     map entry_id rs' = map entry_id rs @ map qid qs \<and>
     t' = t + (\<Sum>j < length qs. contribution env m (i + j) (qs ! j))"
proof (induction qs arbitrary: i rs t evs)
  case Nil
  then show ?case by simp
next
  case (Cons q qs)
  obtain e1 rs1 t1 where step: "question_step env m i q (rs, t) = (e1, rs1, t1)"
    by (cases "question_step env m i q (rs, t)") auto
  obtain e2 where rest: "question_loop env m (Suc i) qs (rs1, t1) = (e2, rs', t')"
    using Cons.prems step by (cases "question_loop env m (Suc i) qs (rs1, t1)") auto
  from question_step_acc [OF step] obtain r where
    r: "rs1 = rs @ [r]" "entry_id r = qid q" and t1: "t1 = t + contribution env m i q"
    by blast
  from Cons.IH [OF rest] have
    ih: "map entry_id rs' = map entry_id rs1 @ map qid qs"
        "t' = t1 + (\<Sum>j < length qs. contribution env m (Suc i + j) (qs ! j))"
    by simp_all
  have "(\<Sum>j < length (q # qs). contribution env m (i + j) ((q # qs) ! j)) =
        contribution env m i q + (\<Sum>j < length qs. contribution env m (Suc i + j) (qs ! j))"
    unfolding length_Cons by (subst sum.lessThan_Suc_shift) simp
  with ih r t1 show ?case by simp
qed

lemma resultPath_inject: "resultPath a = resultPath b \<Longrightarrow> a = b"
  by (simp add: resultPath_def resultFile_def)

lemma resultPath_not_report: "resultPath m \<noteq> reportPath"
proof
  assume "resultPath m = reportPath"
  then have "rev (m @ ''_results.json'') = rev ''final_report.json''"
    by (simp add: resultPath_def resultFile_def reportPath_def)
  then show False by simp
qed

lemma test_model_fst: "fst (test_model env qs m ms) = fst (test_model env qs m ms')"
  by (simp add: test_model_def Let_def split: sum.splits bool.splits prod.splits option.splits)

lemma test_model_skip:
  "isModelAvailable env m = Inr False \<Longrightarrow>
     test_model env qs m ms = ([LogTesting m, ListModels, WarnSkip m], Inr ms)"
  by (simp add: test_model_def)

lemma test_model_run:
  assumes "isModelAvailable env m = Inr True"
    and "question_loop env m 0 qs ([], 0) = (evs, rs, t)"
  shows "test_model env qs m ms =
      ([LogTesting m, ListModels, BarStart (length qs)] @ evs @
         [BarStop, WriteResults (resultPath m) rs (write_error env (resultPath m) = None)],
       case write_error env (resultPath m) of
         Some err \<Rightarrow> Inl err
       | None \<Rightarrow> Inr (AList.update m
            \<lparr>avg_score = JStr (toFixed1 (js_div t (of_nat (length qs)))),
             total_questions = length qs, details_file = resultFile m\<rparr> ms))"
  using assms by (simp add: test_model_def split: option.splits)

lemma test_model_about:
  assumes "ev \<in> set (fst (test_model env qs m' ms))"
    and "is_chat_of m ev \<or> is_write_to (resultPath m) ev"
  shows "m' = m \<and> isModelAvailable env m = Inr True"
proof -
  from isModelAvailable_value [of env m']
  obtain b where b: "isModelAvailable env m' = Inr b" by blast
  show ?thesis
  proof (cases b)
    case False
    with b assms test_model_skip [of env m' qs ms] show ?thesis
      by (auto simp: is_chat_of_def is_write_to_def)
  next
    case True
    obtain evs rs t where loop: "question_loop env m' 0 qs ([], 0) = (evs, rs, t)"
      by (cases "question_loop env m' 0 qs ([], 0)") auto
    from assms(1) test_model_run [of env m' qs evs rs t ms] b True loop
    have "ev \<in> set evs \<or> ev \<in> {LogTesting m', ListModels, BarStart (length qs), BarStop,
        WriteResults (resultPath m') rs (write_error env (resultPath m') = None)}"
      by auto
    then show ?thesis
    proof
      assume "ev \<in> set evs"
      with loop question_loop_events [of ev env m' 0 qs "([], 0)"] assms(2) b True
      show ?thesis by (auto simp: is_chat_of_def is_write_to_def)
    next
      assume "ev \<in> {LogTesting m', ListModels, BarStart (length qs), BarStop,
        WriteResults (resultPath m') rs (write_error env (resultPath m') = None)}"
      with assms(2) b True show ?thesis
        by (auto simp: is_chat_of_def is_write_to_def dest: resultPath_inject)
    qed
  qed
qed

lemma test_model_no_report: "ev \<in> set (fst (test_model env qs m ms)) \<Longrightarrow> \<not> is_report ev"
proof -
  assume ev: "ev \<in> set (fst (test_model env qs m ms))"
  from isModelAvailable_value [of env m]
  obtain b where b: "isModelAvailable env m = Inr b" by blast
  show ?thesis
  proof (cases b)
    case False
    with b ev test_model_skip [of env m qs ms] show ?thesis
      by (auto simp: is_report_def)
  next
    case True
    obtain evs rs t where loop: "question_loop env m 0 qs ([], 0) = (evs, rs, t)"
      by (cases "question_loop env m 0 qs ([], 0)") auto
    from ev test_model_run [of env m qs evs rs t ms] b True loop
    have "ev \<in> set evs \<or> ev \<in> {LogTesting m, ListModels, BarStart (length qs), BarStop,
        WriteResults (resultPath m) rs (write_error env (resultPath m) = None)}"
      by auto
    then show ?thesis
      using loop question_loop_events [of ev env m 0 qs "([], 0)"]
      by (auto simp: is_report_def)
  qed
qed

lemma model_loop_events:
  "ev \<in> set (fst (model_loop env qs l ms)) \<Longrightarrow> \<exists>m \<in> set l. ev \<in> set (fst (test_model env qs m ms))"
proof (induction l arbitrary: ms)
  case Nil
  then show ?case by simp
next
  case (Cons m l)
  obtain evs r where tm: "test_model env qs m ms = (evs, r)"
    by (cases "test_model env qs m ms") auto
  show ?case
  proof (cases r)
    case (Inl err)
    with Cons.prems tm show ?thesis by auto
  next
    case (Inr ms')
    obtain evs' r' where rest: "model_loop env qs l ms' = (evs', r')"
      by (cases "model_loop env qs l ms'") auto
    from Cons.prems tm Inr rest have "ev \<in> set evs \<or> ev \<in> set evs'" by simp
    then show ?thesis
    proof
      assume "ev \<in> set evs"
      with tm show ?thesis by auto
    next
      assume "ev \<in> set evs'"
      with rest Cons.IH [of ms'] obtain m' where
        "m' \<in> set l" "ev \<in> set (fst (test_model env qs m' ms'))" by auto
      with test_model_fst [of env qs m' ms' ms] show ?thesis by auto
    qed
  qed
qed

lemma model_loop_no_report:
  "ev \<in> set (fst (model_loop env qs l ms)) \<Longrightarrow> \<not> is_report ev"
  using model_loop_events [of ev env qs l ms] test_model_no_report by blast

lemma test_model_keys:
  "test_model env qs m ms = (evs, Inr ms') \<Longrightarrow>
     map_of ms' = (if isModelAvailable env m = Inr True
                  then (map_of ms)(m \<mapsto>
                     \<lparr>avg_score = JStr (toFixed1 (js_div (score_total env m qs) (of_nat (length qs)))),
                      total_questions = length qs, details_file = resultFile m\<rparr>)
                  else map_of ms)"
proof -
  assume tm: "test_model env qs m ms = (evs, Inr ms')"
  from isModelAvailable_value [of env m]
  obtain b where b: "isModelAvailable env m = Inr b" by blast
  show ?thesis
  proof (cases b)
    case False
    with b tm test_model_skip [of env m qs ms] show ?thesis by simp
  next
    case True
    obtain e rs t where loop: "question_loop env m 0 qs ([], 0) = (e, rs, t)"
      by (cases "question_loop env m 0 qs ([], 0)") auto
    from question_loop_acc [OF loop] have t: "t = score_total env m qs"
      by (simp add: score_total_def)
    from tm test_model_run [of env m qs e rs t ms] b True loop t show ?thesis
      by (auto simp: update_conv' split: option.splits)
  qed
qed

lemma model_loop_keys:
  "model_loop env qs l ms = (evs, Inr ms') \<Longrightarrow>
     map_of ms' m = (if m \<in> set l \<and> isModelAvailable env m = Inr True
                    then Some \<lparr>avg_score = JStr (toFixed1 (js_div (score_total env m qs) (of_nat (length qs)))),
                      total_questions = length qs, details_file = resultFile m\<rparr>
                    else map_of ms m)"
proof (induction l arbitrary: ms evs)
  case Nil
  then show ?case by simp
next
  case (Cons a l)
  obtain e1 r where tm: "test_model env qs a ms = (e1, r)"
    by (cases "test_model env qs a ms") auto
  show ?case
  proof (cases r)
    case (Inl err)
    with Cons.prems tm show ?thesis by simp
  next
    case (Inr ms1)
    obtain e2 r2 where rest: "model_loop env qs l ms1 = (e2, r2)"
      by (cases "model_loop env qs l ms1") auto
    with Cons.prems tm Inr have r2: "r2 = Inr ms'" by simp
    from Cons.IH [OF rest [unfolded r2]] test_model_keys [OF tm [unfolded Inr]]
    show ?thesis by auto
  qed
qed

lemma batch_run_unfold:
  "batch_run env qs =
     (case model_loop env qs MODELS [] of
        (evs, Inl err) \<Rightarrow> evs @ [ErrUnexpected err]
      | (evs, Inr ms) \<Rightarrow>
          evs @ WriteReport reportPath
                  \<lparr>start_time = start_stamp env, models = ms, end_time = end_stamp env\<rparr>
                  (write_error env reportPath = None)
              # (case write_error env reportPath of
                   None \<Rightarrow> [LogComplete]
                 | Some err \<Rightarrow> [ErrUnexpected err]))"
  by (simp add: batch_run_def runTests_def Let_def split: prod.splits sum.splits option.splits)

lemma loop_one_model:
  "question_loop world_one_model ''llama3'' 0 sample_questions ([], 0) =
     (events_one_model, results_one_model, 45 / 2)"
  by code_simp

lemma run_one_model:
  "batch_run world_one_model sample_questions =
     [LogTesting ''llama3'', ListModels, BarStart 2] @ events_one_model @
     [BarStop, WriteResults (resultPath ''llama3'') results_one_model True,
      LogTesting ''mistral'', ListModels, WarnSkip ''mistral'',
      LogTesting ''phi3'', ListModels, WarnSkip ''phi3'',
      LogTesting ''gemma:7b'', ListModels, WarnSkip ''gemma:7b'',
      LogTesting ''neural-chat'', ListModels, WarnSkip ''neural-chat'',
      WriteReport reportPath report_one_model True,
      LogComplete]"
  by code_simp

lemma run_write_fails:
  "batch_run world_write_fails sample_questions =
     [LogTesting ''llama3'', ListModels, BarStart 2] @ events_one_model @
     [BarStop, WriteResults (resultPath ''llama3'') results_one_model False,
      ErrUnexpected ''EACCES'']"
  by code_simp

lemma avail_one_model:
  "isModelAvailable world_one_model ''llama3'' = Inr True"
  "isModelAvailable world_one_model ''mistral'' = Inr False"
  by (simp_all add: isModelAvailable_def isModelAvailable_try_def world_one_model_def)

lemma total_one_model: "score_total world_one_model ''llama3'' sample_questions = 45 / 2"
  by code_simp

lemma mean_one_model:
  "js_div (score_total world_one_model ''llama3'' sample_questions)
     (of_nat (length sample_questions)) = Finite (45 / 4)"
  by code_simp

text \<open>
  C8: in batch mode a model whose availability check returns false is skipped
  entirely: no chat request is made for it, nothing is written to its result file, and
  it is not a key of the model mapping of any final report that is written.
\<close>

theorem unavailable_model_skipped:
  assumes "isModelAvailable env model = Inr False"
  shows "\<forall>ev \<in> set (batch_run env qs).
           \<not> is_chat_of model ev \<and> \<not> is_write_to (resultPath model) ev \<and>
           (\<forall>p rep ok. ev = WriteReport p rep ok \<longrightarrow> model \<notin> fst ` set (models rep))"
proof
  fix ev
  assume ev: "ev \<in> set (batch_run env qs)"
  obtain evs r where loop: "model_loop env qs MODELS [] = (evs, r)"
    by (cases "model_loop env qs MODELS []") auto
  have in_loop: "\<not> is_chat_of model e \<and> \<not> is_write_to (resultPath model) e \<and> \<not> is_report e"
    if "e \<in> set evs" for e
  proof -
    from that loop model_loop_events [of e env qs MODELS "[]"]
    obtain m where m: "e \<in> set (fst (test_model env qs m []))" by auto
    from test_model_about [OF m, of model] assms test_model_no_report [OF m]
    show ?thesis by auto
  qed
  show "\<not> is_chat_of model ev \<and> \<not> is_write_to (resultPath model) ev \<and>
        (\<forall>p rep ok. ev = WriteReport p rep ok \<longrightarrow> model \<notin> fst ` set (models rep))"
  proof (cases r)
    case (Inl err)
    with ev loop batch_run_unfold [of env qs]
    have "ev \<in> set evs \<or> ev = ErrUnexpected err" by auto
    moreover have "\<not> is_chat_of model (ErrUnexpected err)"
      "\<not> is_write_to (resultPath model) (ErrUnexpected err)"
      by (simp_all add: is_chat_of_def is_write_to_def)
    moreover have "is_report (WriteReport p rep ok)" for p rep ok
      by (simp add: is_report_def)
    ultimately show ?thesis using in_loop by blast
  next
    case (Inr ms)
    from model_loop_keys [OF loop [unfolded Inr], of model] assms
    have "map_of ms model = None" by simp
    then have absent: "model \<notin> fst ` set ms"
      by (simp add: map_of_eq_None_iff)
    let ?R = "WriteReport reportPath
                 \<lparr>start_time = start_stamp env, models = ms, end_time = end_stamp env\<rparr>
                 (write_error env reportPath = None)"
    from ev loop Inr batch_run_unfold [of env qs]
    consider "ev \<in> set evs" | "ev = ?R" | "ev = LogComplete" | err where "ev = ErrUnexpected err"
      by (auto split: option.splits)
    then show ?thesis
    proof cases
      case 1
      moreover have "is_report (WriteReport p rep ok)" for p rep ok
        by (simp add: is_report_def)
      ultimately show ?thesis using in_loop by blast
    next
      case 2
      with absent resultPath_not_report [of model] show ?thesis
        by (simp add: is_chat_of_def is_write_to_def)
    next
      case 3
      then show ?thesis by (simp add: is_chat_of_def is_write_to_def)
    next
      case 4
      then show ?thesis by (simp add: is_chat_of_def is_write_to_def)
    qed
  qed
qed

text \<open>
  The theorem at mistral, which is not installed in the sample world.
\<close>

theorem unavailable_model_skipped_witness:
  "isModelAvailable world_one_model ''mistral'' = Inr False \<and>
   list_all (\<lambda>ev. \<not> is_chat_of ''mistral'' ev \<and> \<not> is_write_to (resultPath ''mistral'') ev)
     (batch_run world_one_model sample_questions) \<and>
   ''mistral'' \<notin> fst ` set (models report_one_model)"
proof -
  have h: "isModelAvailable world_one_model ''mistral'' = Inr False"
    by (rule avail_one_model)
  have r: "WriteReport reportPath report_one_model True
      \<in> set (batch_run world_one_model sample_questions)"
    by (simp add: run_one_model)
  from h r unavailable_model_skipped [OF h, of sample_questions] show ?thesis
    unfolding list_all_iff by blast
qed

text \<open>
  C2 (as amended): in batch mode, for every configured model that is available, the
  summary entry of the final report (when the run gets to write it) has \<open>avg_score\<close> equal
  to a string, the rendering with one decimal of the mean of \<open>(scoreEN + scoreHI) / 2\<close>
  over all questions (\<open>toFixed(1)\<close> of the total divided by the question count, where
  a question that failed adds nothing to the total and counts in the denominator), and
  \<open>total_questions\<close> equal to the question count.
\<close>

theorem avg_score_is_formatted_mean:
  assumes "model \<in> set MODELS"
    and "isModelAvailable env model = Inr True"
    and "WriteReport p rep ok \<in> set (batch_run env qs)"
  shows "map_of (models rep) model =
     Some \<lparr>avg_score =
             JStr (toFixed1 (js_div (score_total env model qs) (of_nat (length qs)))),
           total_questions = length qs,
           details_file = resultFile model\<rparr>"
proof -
  obtain evs r where loop: "model_loop env qs MODELS [] = (evs, r)"
    by (cases "model_loop env qs MODELS []") auto
  have not_in_loop: "WriteReport p rep ok \<notin> set evs"
    using model_loop_no_report [of "WriteReport p rep ok" env qs MODELS "[]"] loop
    by (auto simp: is_report_def)
  show ?thesis
  proof (cases r)
    case (Inl err)
    with assms(3) loop not_in_loop batch_run_unfold [of env qs] show ?thesis by auto
  next
    case (Inr ms)
    with assms(3) loop not_in_loop batch_run_unfold [of env qs]
    have "models rep = ms" by (auto split: option.splits)
    with model_loop_keys [OF loop [unfolded Inr], of model] assms(1,2)
    show ?thesis by simp
  qed
qed

text \<open>
  The theorem at llama3 in the sample world.
\<close>

theorem avg_score_is_formatted_mean_witness:
  "''llama3'' \<in> set MODELS \<and>
   isModelAvailable world_one_model ''llama3'' = Inr True \<and>
   WriteReport reportPath report_one_model True
     \<in> set (batch_run world_one_model sample_questions) \<and>
   map_of (models report_one_model) ''llama3'' =
     Some \<lparr>avg_score =
             JStr (toFixed1 (js_div (score_total world_one_model ''llama3'' sample_questions)
                                    (of_nat (length sample_questions)))),
           total_questions = length sample_questions,
           details_file = resultFile ''llama3''\<rparr>"
proof -
  have h1: "''llama3'' \<in> set MODELS"
    by (simp add: MODELS_def)
  have h2: "isModelAvailable world_one_model ''llama3'' = Inr True"
    by (rule avail_one_model)
  have h3: "WriteReport reportPath report_one_model True
      \<in> set (batch_run world_one_model sample_questions)"
    by (simp add: run_one_model)
  from h1 h2 h3 avg_score_is_formatted_mean [OF h1 h2 h3] show ?thesis
    by blast
qed

text \<open>
  C2 (as stated) fails: with one question answered (scores 30 and 15) and one failed,
  the mean is the number 11.25, and the report holds the string \<open>11.3\<close>.
\<close>

theorem avg_score_float_counterexample:
  "avg_scores (batch_run world_one_model sample_questions) = [(''llama3'', JStr ''11.3'')] # [] \<and>
   js_div (score_total world_one_model ''llama3'' sample_questions)
     (of_nat (length sample_questions)) = Finite (45 / 4)"
  by (simp add: run_one_model mean_one_model avg_scores_def report_one_model_def
      events_one_model_def)

lemma snoc_split:
  assumes "xs @ [w] = pre @ v # us" and "v \<notin> set xs"
  shows "us = [] \<and> pre = xs \<and> v = w"
proof (cases us rule: rev_cases)
  case Nil
  with assms(1) show ?thesis by simp
next
  case (snoc us' u)
  with assms(1) have "xs = pre @ v # us'" by simp
  with assms(2) show ?thesis by simp
qed

lemma append_split:
  assumes "xs @ ys = pre @ v # post" and "v \<notin> set ys"
  shows "\<exists>us. xs = pre @ v # us \<and> post = us @ ys"
proof -
  from assms(1) obtain us where
    "(xs = pre @ us \<and> us @ ys = v # post) \<or> (xs @ us = pre \<and> ys = us @ v # post)"
    by (auto simp: append_eq_append_conv2)
  then show ?thesis
  proof
    assume a: "xs = pre @ us \<and> us @ ys = v # post"
    show ?thesis
    proof (cases us)
      case Nil
      with a assms(2) show ?thesis by auto
    next
      case (Cons u us')
      with a show ?thesis by auto
    qed
  next
    assume "xs @ us = pre \<and> ys = us @ v # post"
    with assms(2) show ?thesis by auto
  qed
qed

lemma test_model_failed_write:
  assumes "WriteResults path d False \<in> set (fst (test_model env qs m ms))"
  shows "\<exists>pre err. test_model env qs m ms = (pre @ [WriteResults path d False], Inl err)"
proof -
  from isModelAvailable_value [of env m]
  obtain b where b: "isModelAvailable env m = Inr b" by blast
  show ?thesis
  proof (cases b)
    case False
    with b assms test_model_skip [of env m qs ms] show ?thesis by auto
  next
    case True
    obtain evs rs t where loop: "question_loop env m 0 qs ([], 0) = (evs, rs, t)"
      by (cases "question_loop env m 0 qs ([], 0)") auto
    from b True have avail: "isModelAvailable env m = Inr True" by simp
    note run = test_model_run [of env m qs evs rs t ms, OF avail loop]
    have "WriteResults path d False \<notin> set evs"
      using question_loop_events [of "WriteResults path d False" env m 0 qs "([], 0)"] loop
      by auto
    with assms run have
      "WriteResults path d False =
         WriteResults (resultPath m) rs (write_error env (resultPath m) = None)"
      by auto
    then obtain err where "path = resultPath m" "d = rs" "write_error env (resultPath m) = Some err"
      by auto
    with run show ?thesis by auto
  qed
qed

lemma model_loop_failed_write:
  "WriteResults path d False \<in> set (fst (model_loop env qs l ms)) \<Longrightarrow>
     \<exists>pre err. model_loop env qs l ms = (pre @ [WriteResults path d False], Inl err)"
proof (induction l arbitrary: ms)
  case Nil
  then show ?case by simp
next
  case (Cons m l)
  obtain e1 r where tm: "test_model env qs m ms = (e1, r)"
    by (cases "test_model env qs m ms") auto
  show ?case
  proof (cases "WriteResults path d False \<in> set e1")
    case True
    with tm test_model_failed_write [of path d env qs m ms] show ?thesis by auto
  next
    case False
    show ?thesis
    proof (cases r)
      case (Inl err)
      with Cons.prems tm False show ?thesis by simp
    next
      case (Inr ms1)
      obtain e2 r2 where rest: "model_loop env qs l ms1 = (e2, r2)"
        by (cases "model_loop env qs l ms1") auto
      with Cons.prems tm Inr False have "WriteResults path d False \<in> set e2" by simp
      with Cons.IH [of ms1] rest obtain pre err where
        "e2 = pre @ [WriteResults path d False]" "r2 = Inl err" by auto
      with tm Inr rest show ?thesis by simp
    qed
  qed
qed

text \<open>
  C5 (as amended): in batch mode, when the write of a model's result file fails, the
  error is logged once as unexpected and the run ends there: the failed write and that
  log line are the last two events, so no later model is tested, and no final report is
  written.
\<close>

theorem failed_result_write_ends_run:
  assumes "WriteResults path d False \<in> set (batch_run env qs)"
  shows "\<exists>pre err. batch_run env qs = pre @ [WriteResults path d False, ErrUnexpected err] \<and>
           (\<forall>ev \<in> set pre. \<not> is_report ev)"
proof -
  obtain evs r where loop: "model_loop env qs MODELS [] = (evs, r)"
    by (cases "model_loop env qs MODELS []") auto
  from assms loop batch_run_unfold [of env qs]
  have "WriteResults path d False \<in> set evs"
    by (auto split: sum.splits option.splits)
  with model_loop_failed_write [of path d env qs MODELS "[]"] loop
  obtain pre err where pre: "evs = pre @ [WriteResults path d False]" "r = Inl err"
    by auto
  have "\<not> is_report ev" if "ev \<in> set pre" for ev
    using that pre loop model_loop_no_report [of ev env qs MODELS "[]"] by simp
  with pre loop batch_run_unfold [of env qs] show ?thesis by simp
qed

text \<open>
  The theorem in the sample world where the result file of llama3 cannot be written.
\<close>

theorem failed_result_write_ends_run_witness:
  "WriteResults (resultPath ''llama3'') results_one_model False
     \<in> set (batch_run world_write_fails sample_questions) \<and>
   (\<exists>pre err. batch_run world_write_fails sample_questions =
        pre @ [WriteResults (resultPath ''llama3'') results_one_model False, ErrUnexpected err] \<and>
        list_all (\<lambda>ev. \<not> is_report ev) pre)"
proof -
  have h: "WriteResults (resultPath ''llama3'') results_one_model False
      \<in> set (batch_run world_write_fails sample_questions)"
    by (simp add: run_write_fails)
  from h failed_result_write_ends_run [OF h] show ?thesis
    unfolding list_all_iff by blast
qed

text \<open>
  C5 (as stated) fails: mistral is installed, and after the failed write of the result
  file of llama3 the run neither tests it nor writes the final report.
\<close>

theorem write_failure_continues_counterexample:
  "batch_run world_write_fails sample_questions =
     [LogTesting ''llama3'', ListModels, BarStart 2] @ events_one_model @
     [BarStop, WriteResults (resultPath ''llama3'') results_one_model False,
      ErrUnexpected ''EACCES''] \<and>
   isModelAvailable world_write_fails ''mistral'' = Inr True"
proof
  show "batch_run world_write_fails sample_questions =
     [LogTesting ''llama3'', ListModels, BarStart 2] @ events_one_model @
     [BarStop, WriteResults (resultPath ''llama3'') results_one_model False,
      ErrUnexpected ''EACCES'']"
    by (rule run_write_fails)
  show "isModelAvailable world_write_fails ''mistral'' = Inr True"
    by (simp add: isModelAvailable_def isModelAvailable_try_def world_write_fails_def
        world_one_model_def)
qed

lemma model_loop_all_skipped:
  "\<forall>model \<in> set l. isModelAvailable env model = Inr False \<Longrightarrow>
     model_loop env qs l ms =
       (concat (map (\<lambda>model. [LogTesting model, ListModels, WarnSkip model]) l), Inr ms)"
  by (induction l) (simp_all add: test_model_skip)

text \<open>
  C10: isModelAvailable never raises; when the query for the installed models fails
  it returns false; so when the query fails for every configured model, each model is
  skipped and the run goes on to write the final report, with an empty model mapping.
\<close>

theorem unreachable_service_skips_every_model:
  "(\<forall>model err. isModelAvailable env model \<noteq> Inl err) \<and>
   (\<forall>model. isl (list_models env model) \<longrightarrow> isModelAvailable env model = Inr False) \<and>
   ((\<forall>model \<in> set MODELS. isl (list_models env model)) \<longrightarrow>
      batch_run env qs =
        concat (map (\<lambda>model. [LogTesting model, ListModels, WarnSkip model]) MODELS)
        @ WriteReport reportPath
            \<lparr>start_time = start_stamp env, models = [], end_time = end_stamp env\<rparr>
            (write_error env reportPath = None)
        # (case write_error env reportPath of
             None \<Rightarrow> [LogComplete]
           | Some err \<Rightarrow> [ErrUnexpected err]))"
proof (intro conjI allI impI)
  fix model err
  show "isModelAvailable env model \<noteq> Inl err"
    by (simp add: isModelAvailable_value)
next
  fix model
  assume "isl (list_models env model)"
  then show "isModelAvailable env model = Inr False"
    by (auto simp: isModelAvailable_value isl_def)
next
  assume down: "\<forall>model \<in> set MODELS. isl (list_models env model)"
  have "\<forall>model \<in> set MODELS. isModelAvailable env model = Inr False"
  proof
    fix model
    assume "model \<in> set MODELS"
    with down have "isl (list_models env model)" by blast
    then show "isModelAvailable env model = Inr False"
      by (auto simp: isModelAvailable_value isl_def)
  qed
  from model_loop_all_skipped [OF this, of qs "[]"] show
    "batch_run env qs =
        concat (map (\<lambda>model. [LogTesting model, ListModels, WarnSkip model]) MODELS)
        @ WriteReport reportPath
            \<lparr>start_time = start_stamp env, models = [], end_time = end_stamp env\<rparr>
            (write_error env reportPath = None)
        # (case write_error env reportPath of
             None \<Rightarrow> [LogComplete]
           | Some err \<Rightarrow> [ErrUnexpected err])"
    by (simp add: batch_run_unfold)
qed

text \<open>
  The theorem in the sample world where the service is down.
\<close>

theorem unreachable_service_skips_every_model_witness:
  "list_all (\<lambda>model. isl (list_models world_down model)) MODELS \<and>
   isModelAvailable world_down ''llama3'' = Inr False \<and>
   batch_run world_down sample_questions =
     [LogTesting ''llama3'', ListModels, WarnSkip ''llama3'',
      LogTesting ''mistral'', ListModels, WarnSkip ''mistral'',
      LogTesting ''phi3'', ListModels, WarnSkip ''phi3'',
      LogTesting ''gemma:7b'', ListModels, WarnSkip ''gemma:7b'',
      LogTesting ''neural-chat'', ListModels, WarnSkip ''neural-chat'',
      WriteReport reportPath
        \<lparr>start_time = ''2024-01-01T00:00:00.000Z'', models = [],
         end_time = ''2024-01-01T00:01:00.000Z''\<rparr> True,
      LogComplete]"
proof -
  have h: "\<forall>model \<in> set MODELS. isl (list_models world_down model)"
    by (simp add: world_down_def world_one_model_def)
  have w: "write_error world_down reportPath = None"
    "start_stamp world_down = ''2024-01-01T00:00:00.000Z''"
    "end_stamp world_down = ''2024-01-01T00:01:00.000Z''"
    by (simp_all add: world_down_def world_one_model_def)
  from unreachable_service_skips_every_model [of world_down sample_questions] h
  have "isModelAvailable world_down ''llama3'' = Inr False"
    and "batch_run world_down sample_questions =
        concat (map (\<lambda>model. [LogTesting model, ListModels, WarnSkip model]) MODELS)
        @ WriteReport reportPath
            \<lparr>start_time = start_stamp world_down, models = [],
             end_time = end_stamp world_down\<rparr>
            (write_error world_down reportPath = None)
        # (case write_error world_down reportPath of
             None \<Rightarrow> [LogComplete]
           | Some err \<Rightarrow> [ErrUnexpected err])"
    by (simp_all add: MODELS_def)
  with h w show ?thesis
    by (simp add: MODELS_def list_all_iff)
qed

lemma test_model_write_split:
  assumes "fst (test_model env qs m ms) = pre @ WriteResults path d ok # us"
  shows "path = resultPath m \<and> us = [] \<and>
     pre = [LogTesting m, ListModels, BarStart (length qs)]
           @ fst (question_loop env m 0 qs ([], 0)) @ [BarStop] \<and>
     d = fst (snd (question_loop env m 0 qs ([], 0)))"
proof -
  from isModelAvailable_value [of env m]
  obtain b where b: "isModelAvailable env m = Inr b" by blast
  show ?thesis
  proof (cases b)
    case False
    with b have "fst (test_model env qs m ms) = [LogTesting m, ListModels, WarnSkip m]"
      by (simp add: test_model_skip)
    then have "WriteResults path d ok \<in> set [LogTesting m, ListModels, WarnSkip m]"
      using assms by (metis in_set_conv_decomp)
    then show ?thesis by simp
  next
    case True
    obtain evs rs t where loop: "question_loop env m 0 qs ([], 0) = (evs, rs, t)"
      by (cases "question_loop env m 0 qs ([], 0)") auto
    from b True have avail: "isModelAvailable env m = Inr True" by simp
    let ?xs = "[LogTesting m, ListModels, BarStart (length qs)] @ evs @ [BarStop]"
    from test_model_run [of env m qs evs rs t ms, OF avail loop] assms
    have eq: "?xs @ [WriteResults (resultPath m) rs (write_error env (resultPath m) = None)] =
        pre @ WriteResults path d ok # us"
      by simp
    have "WriteResults path d ok \<notin> set evs"
      using question_loop_events [of "WriteResults path d ok" env m 0 qs "([], 0)"] loop
      by auto
    then have "WriteResults path d ok \<notin> set ?xs" by simp
    from snoc_split [OF eq this] loop show ?thesis by simp
  qed
qed

lemma model_loop_about:
  assumes "ev \<in> set (fst (model_loop env qs l ms))"
    and "is_chat_of m ev \<or> is_write_to (resultPath m) ev"
  shows "m \<in> set l"
  using model_loop_events [OF assms(1)] test_model_about [OF _ assms(2)] by blast

lemma model_loop_write_split:
  assumes "distinct l"
    and "fst (model_loop env qs l ms) = pre @ WriteResults path d ok # post"
  shows "\<exists>m \<in> set l. path = resultPath m \<and>
     (\<exists>before. pre = before @ fst (question_loop env m 0 qs ([], 0)) @ [BarStop]) \<and>
     d = fst (snd (question_loop env m 0 qs ([], 0))) \<and>
     (\<forall>ev \<in> set post. \<not> is_chat_of m ev) \<and>
     (\<forall>ev \<in> set (pre @ post). \<not> is_write_to path ev)"
  using assms
proof (induction l arbitrary: ms pre)
  case Nil
  then show ?case by simp
next
  case (Cons a l)
  let ?W = "WriteResults path d ok"
  obtain e1 r where tm: "test_model env qs a ms = (e1, r)"
    by (cases "test_model env qs a ms") auto
  obtain e2 where e2: "fst (model_loop env qs (a # l) ms) = e1 @ e2"
    and e2_rest: "e2 = [] \<or> (\<exists>ms1. e2 = fst (model_loop env qs l ms1))"
  proof (cases r)
    case (Inl err)
    with tm have "fst (model_loop env qs (a # l) ms) = e1 @ []" by simp
    then show ?thesis using that by blast
  next
    case (Inr ms1)
    with tm have "fst (model_loop env qs (a # l) ms) = e1 @ fst (model_loop env qs l ms1)"
      by (simp split: prod.splits)
    then show ?thesis using that by blast
  qed
  have others: "\<not> is_chat_of a ev \<and> \<not> is_write_to (resultPath a) ev" if "ev \<in> set e2" for ev
  proof -
    from e2_rest that obtain ms1 where "ev \<in> set (fst (model_loop env qs l ms1))" by auto
    with model_loop_about [of ev env qs l ms1 a] Cons.prems(1) show ?thesis by auto
  qed
  from Cons.prems(2) e2 have eq: "e1 @ e2 = pre @ ?W # post" by simp
  show ?case
  proof (cases "?W \<in> set e2")
    case False
    from append_split [OF eq False] obtain us where us: "e1 = pre @ ?W # us" "post = us @ e2"
      by blast
    from test_model_write_split [of env qs a ms pre path d ok us] tm us(1)
    have split: "path = resultPath a" "us = []"
      "pre = [LogTesting a, ListModels, BarStart (length qs)]
           @ fst (question_loop env a 0 qs ([], 0)) @ [BarStop]"
      "d = fst (snd (question_loop env a 0 qs ([], 0)))"
      by simp_all
    have pre_ok: "\<not> is_write_to path ev" if "ev \<in> set pre" for ev
      using that split(3) question_loop_events [of ev env a 0 qs "([], 0)"]
      by (auto simp: is_write_to_def)
    from split us(2) others pre_ok show ?thesis by auto
  next
    case True
    then obtain ms1 where ms1: "e2 = fst (model_loop env qs l ms1)"
      using e2_rest by auto
    have "?W \<notin> set e1"
    proof
      assume "?W \<in> set e1"
      then obtain p1 u1 where p1: "e1 = p1 @ ?W # u1" by (auto simp: in_set_conv_decomp)
      from test_model_write_split [of env qs a ms p1 path d ok u1] tm p1
      have "path = resultPath a" by simp
      with True others [of ?W] show False by (simp add: is_write_to_def)
    qed
    with eq obtain pre' where pre': "pre = e1 @ pre'" "e2 = pre' @ ?W # post"
      by (auto simp: append_eq_append_conv2 append_eq_Cons_conv Cons_eq_append_conv)
    from Cons.prems(1) have "distinct l" by simp
    from Cons.IH [OF this, of ms1 pre'] pre'(2) ms1 obtain m where m:
      "m \<in> set l" "path = resultPath m"
      "\<exists>before. pre' = before @ fst (question_loop env m 0 qs ([], 0)) @ [BarStop]"
      "d = fst (snd (question_loop env m 0 qs ([], 0)))"
      "\<forall>ev \<in> set post. \<not> is_chat_of m ev"
      "\<forall>ev \<in> set (pre' @ post). \<not> is_write_to path ev"
      by auto
    from m(1) Cons.prems(1) have neq: "a \<noteq> m" by auto
    have e1_ok: "\<not> is_write_to path ev" if "ev \<in> set e1" for ev
      using test_model_about [of ev env qs a ms m] that tm m(2) neq by auto
    from m(3) obtain before where "pre' = before @ fst (question_loop env m 0 qs ([], 0)) @ [BarStop]"
      by blast
    with pre'(1) have "pre = (e1 @ before) @ fst (question_loop env m 0 qs ([], 0)) @ [BarStop]"
      by simp
    then have "\<exists>before. pre = before @ fst (question_loop env m 0 qs ([], 0)) @ [BarStop]"
      by blast
    with m pre'(1) e1_ok show ?thesis by auto
  qed
qed

text \<open>
  C6: in batch mode, whenever a per-model result file is written, it is the file of a
  configured model, the events of the whole loop over the questions for that model come
  right before the write, the list written is the final list of that loop with one
  entry for each question in order, no chat request for that model follows, and the
  path is written at no other moment of the run.
\<close>

theorem results_written_after_all_questions:
  assumes "batch_run env qs = pre @ WriteResults path d ok # post"
  shows "\<exists>model \<in> set MODELS. path = resultPath model \<and>
     (\<exists>before. pre = before @ fst (question_loop env model 0 qs ([], 0)) @ [BarStop]) \<and>
     d = fst (snd (question_loop env model 0 qs ([], 0))) \<and>
     map entry_id d = map qid qs \<and>
     (\<forall>ev \<in> set post. \<not> is_chat_of model ev) \<and>
     (\<forall>ev \<in> set (pre @ post). \<not> is_write_to path ev)"
proof -
  let ?W = "WriteResults path d ok"
  obtain evs r where loop: "model_loop env qs MODELS [] = (evs, r)"
    by (cases "model_loop env qs MODELS []") auto
  obtain tail where tail: "batch_run env qs = evs @ tail"
    and tail_ok: "\<forall>ev \<in> set tail. ev \<noteq> ?W \<and> (\<forall>m. \<not> is_chat_of m ev \<and> \<not> is_write_to (resultPath m) ev)"
  proof (cases r)
    case (Inl err)
    with loop batch_run_unfold [of env qs]
    have "batch_run env qs = evs @ [ErrUnexpected err]" by simp
    then show ?thesis using that [of "[ErrUnexpected err]"]
      by (simp add: is_chat_of_def is_write_to_def)
  next
    case (Inr ms)
    let ?tail = "WriteReport reportPath
            \<lparr>start_time = start_stamp env, models = ms, end_time = end_stamp env\<rparr>
            (write_error env reportPath = None)
        # (case write_error env reportPath of
             None \<Rightarrow> [LogComplete]
           | Some err \<Rightarrow> [ErrUnexpected err])"
    from Inr loop batch_run_unfold [of env qs]
    have "batch_run env qs = evs @ ?tail" by simp
    moreover have "reportPath \<noteq> resultPath m" for m
      using resultPath_not_report [of m] by (rule not_sym)
    then have "\<forall>ev \<in> set ?tail. ev \<noteq> ?W \<and> (\<forall>m. \<not> is_chat_of m ev \<and> \<not> is_write_to (resultPath m) ev)"
      by (cases "write_error env reportPath") (simp_all add: is_chat_of_def is_write_to_def)
    ultimately show ?thesis using that by blast
  qed
  from assms tail have eq: "evs @ tail = pre @ ?W # post" by simp
  from tail_ok have "?W \<notin> set tail" by blast
  from append_split [OF eq this] obtain us where us: "evs = pre @ ?W # us" "post = us @ tail"
    by blast
  have "distinct MODELS" by (simp add: MODELS_def)
  from model_loop_write_split [OF this, of env qs "[]" pre path d ok us] loop us(1)
  obtain model where m: "model \<in> set MODELS" "path = resultPath model"
    "\<exists>before. pre = before @ fst (question_loop env model 0 qs ([], 0)) @ [BarStop]"
    "d = fst (snd (question_loop env model 0 qs ([], 0)))"
    "\<forall>ev \<in> set us. \<not> is_chat_of model ev"
    "\<forall>ev \<in> set (pre @ us). \<not> is_write_to path ev"
    by auto
  obtain e rs t where ql: "question_loop env model 0 qs ([], 0) = (e, rs, t)"
    by (cases "question_loop env model 0 qs ([], 0)") auto
  from question_loop_acc [OF ql] m(4) ql have ids: "map entry_id d = map qid qs" by simp
  have post_chat: "\<forall>ev \<in> set post. \<not> is_chat_of model ev"
  proof
    fix ev assume "ev \<in> set post"
    with us(2) have "ev \<in> set us \<or> ev \<in> set tail" by simp
    with m(5) tail_ok show "\<not> is_chat_of model ev" by blast
  qed
  have no_write: "\<forall>ev \<in> set (pre @ post). \<not> is_write_to path ev"
  proof
    fix ev assume "ev \<in> set (pre @ post)"
    with us(2) have "ev \<in> set (pre @ us) \<or> ev \<in> set tail" by auto
    with m(6) m(2) tail_ok show "\<not> is_write_to path ev" by blast
  qed
  from m(1,2,3,4) ids post_chat no_write show ?thesis by blast
qed

text \<open>
  The theorem at the write of the result file of llama3 in the sample world.
\<close>

theorem results_written_after_all_questions_witness:
  "batch_run world_one_model sample_questions =
     ([LogTesting ''llama3'', ListModels, BarStart 2] @ events_one_model @ [BarStop])
     @ WriteResults (resultPath ''llama3'') results_one_model True
     # [LogTesting ''mistral'', ListModels, WarnSkip ''mistral'',
        LogTesting ''phi3'', ListModels, WarnSkip ''phi3'',
        LogTesting ''gemma:7b'', ListModels, WarnSkip ''gemma:7b'',
        LogTesting ''neural-chat'', ListModels, WarnSkip ''neural-chat'',
        WriteReport reportPath report_one_model True,
        LogComplete] \<and>
   map entry_id results_one_model = map qid sample_questions"
proof -
  have h: "batch_run world_one_model sample_questions =
     ([LogTesting ''llama3'', ListModels, BarStart 2] @ events_one_model @ [BarStop])
     @ WriteResults (resultPath ''llama3'') results_one_model True
     # [LogTesting ''mistral'', ListModels, WarnSkip ''mistral'',
        LogTesting ''phi3'', ListModels, WarnSkip ''phi3'',
        LogTesting ''gemma:7b'', ListModels, WarnSkip ''gemma:7b'',
        LogTesting ''neural-chat'', ListModels, WarnSkip ''neural-chat'',
        WriteReport reportPath report_one_model True,
        LogComplete]"
    by (simp add: run_one_model)
  from h results_written_after_all_questions [OF h] show ?thesis
    by blast
qed

section \<open>Properties of single-model mode\<close>

lemma try_ask_failed:
  "question_reply env index = Inl err \<Longrightarrow>
     ask_step env n index q existing =
       ([LogQuestion (index + 1) n (english q), ChatRequest MODEL_NAME (english q) 30000,
         ErrQuestion (index + 1) err], existing)"
  by (simp add: ask_step_def try_ask_def)

lemma ask_loop_all_fail:
  "\<forall>i < length qs. isl (question_reply env (index + i)) \<Longrightarrow>
     length (filter is_question_failure (ask_loop env n index qs existing)) = length qs \<and>
     filter is_write (ask_loop env n index qs existing) = [] \<and>
     filter is_chat (ask_loop env n index qs existing) =
       map (\<lambda>q. ChatRequest MODEL_NAME (english q) 30000) qs"
proof (induction qs arbitrary: index)
  case Nil
  show ?case by simp
next
  case (Cons q qs)
  from Cons.prems have "isl (question_reply env (index + 0))" by blast
  then obtain err where err: "question_reply env index = Inl err"
    by (auto simp: isl_def)
  have "\<forall>i < length qs. isl (question_reply env (Suc index + i))"
  proof (intro allI impI)
    fix i assume "i < length qs"
    with Cons.prems have "isl (question_reply env (index + Suc i))" by auto
    then show "isl (question_reply env (Suc index + i))" by simp
  qed
  from Cons.IH [OF this] try_ask_failed [OF err, of n q existing] show ?case
    by (simp add: is_question_failure_def is_write_def is_chat_def)
qed

text \<open>
  C3 (as amended): in single-model mode, for a questions file with N entries, if the
  start-up ping is answered, the results file is absent (and can be created) or parses,
  and the chat for every question fails, then the run logs N failures, one for each
  question, writes nothing to the results file apart from creating it as an empty array
  when it was absent, and the process exits with code 0.
\<close>

theorem all_questions_fail:
  assumes "ping_reply env = Inr pong"
    and "questions_json fs = Parsed qs"
    and "results_json fs = Missing \<longrightarrow> init_write_error env = None"
    and "results_json fs \<noteq> Unparsable"
    and "\<forall>i < length qs. isl (question_reply env i)"
  shows "snd (single_run env fs) = 0 \<and>
     length (filter is_question_failure (fst (single_run env fs))) = length qs \<and>
     filter is_write (fst (single_run env fs)) =
       (if results_json fs = Missing then [WriteFile RESULTS_FILE (JArray []) True] else [])"
proof -
  from assms(5) have "\<forall>i < length qs. isl (question_reply env (0 + i))" by simp
  note loop = ask_loop_all_fail [OF this]
  show ?thesis
  proof (cases "results_json fs")
    case Missing
    with assms(1,2,3) loop [of "length qs" "JSON_parse (JArray [])"] show ?thesis
      by (simp add: single_run_def processQuestions_def initResultsFile_def checkOllama_def
          is_question_failure_def is_write_def)
  next
    case Unparsable
    with assms(4) show ?thesis by simp
  next
    case (Parsed existing)
    with assms(1,2) loop [of "length qs" "JSON_parse existing"] show ?thesis
      by (simp add: single_run_def processQuestions_def initResultsFile_def checkOllama_def
          is_question_failure_def is_write_def)
  qed
qed

text \<open>
  The theorem on the two sample questions, where the ping is answered.
\<close>

theorem all_questions_fail_witness:
  "ping_reply questions_fail = Inr ''pong'' \<and>
   questions_json sample_files = Parsed sample_questions \<and>
   results_json sample_files = Parsed (JArray []) \<and>
   list_all (\<lambda>i. isl (question_reply questions_fail i)) [0..<length sample_questions] \<and>
   snd (single_run questions_fail sample_files) = 0 \<and>
   length (filter is_question_failure (fst (single_run questions_fail sample_files))) = 2 \<and>
   filter is_write (fst (single_run questions_fail sample_files)) = []"
proof -
  have h1: "ping_reply questions_fail = Inr ''pong''"
    by (simp add: questions_fail_def service_down_def)
  have h2: "questions_json sample_files = Parsed sample_questions"
    by (simp add: sample_files_def)
  have h3: "results_json sample_files = Missing \<longrightarrow> init_write_error questions_fail = None"
    by (simp add: sample_files_def)
  have h4: "results_json sample_files \<noteq> Unparsable"
    by (simp add: sample_files_def)
  have h5: "\<forall>i < length sample_questions. isl (question_reply questions_fail i)"
    by (simp add: questions_fail_def service_down_def)
  have r: "results_json sample_files = Parsed (JArray [])"
    by (simp add: sample_files_def)
  have n: "length sample_questions = 2"
    by (simp add: sample_questions_def)
  have h5': "list_all (\<lambda>i. isl (question_reply questions_fail i)) [0..<length sample_questions]"
    using h5 by (simp add: list_all_iff)
  note t = all_questions_fail [OF h1 h2 h3 h4 h5]
  from t have a: "snd (single_run questions_fail sample_files) = 0"
    by (rule conjunct1)
  from t n have b:
    "length (filter is_question_failure (fst (single_run questions_fail sample_files))) = 2"
    by simp
  from t r have c: "filter is_write (fst (single_run questions_fail sample_files)) = []"
    by simp
  show ?thesis
    by (intro conjI) (rule h1 h2 r h5' a b c)+
qed

text \<open>
  C3 (as stated) fails: when every chat call fails, the ping of \<open>checkOllama\<close> fails
  first; no question is tried, no failure is logged for a question, and the process
  exits with code 1.
\<close>

theorem every_chat_fails_counterexample:
  "isl (ping_reply service_down) \<and>
   isl (question_reply service_down 0) \<and> isl (question_reply service_down 1) \<and>
   single_run service_down sample_files =
     ([ChatRequest MODEL_NAME ''ping'' 5000, ErrConnection ''ECONNREFUSED''], 1)"
  by (simp add: single_run_def processQuestions_def initResultsFile_def checkOllama_def
      service_down_def sample_files_def)

text \<open>
  C4 (as amended): in single-model mode, if the questions file is missing or does not
  parse, the run ends with an error (the rejection is logged and the exit code is 0, or
  the ping failed and the exit code is 1) and no chat request is issued for any
  question: the only chat request of the run is the start-up ping, which is sent before
  the questions file is read (and not at all when creating the results file failed).
\<close>

theorem bad_questions_file_aborts:
  assumes "questions_json fs = Missing \<or> questions_json fs = Unparsable"
  shows "filter is_chat (fst (single_run env fs)) =
       (if results_json fs = Missing \<and> init_write_error env \<noteq> None then []
        else [ChatRequest MODEL_NAME ''ping'' 5000]) \<and>
     (\<exists>evs err. (fst (single_run env fs) = evs @ [ErrRejected err] \<and>
                    snd (single_run env fs) = 0) \<or>
                 (fst (single_run env fs) = evs @ [ErrConnection err] \<and>
                    snd (single_run env fs) = 1))"
proof -
  show ?thesis
  proof (cases "initResultsFile env (results_json fs)")
    case (fields evs0 rf thrown)
    show ?thesis
    proof (cases thrown)
      case (Some err)
      with fields have run: "single_run env fs = (evs0 @ [ErrRejected err], 0)"
        by (simp add: single_run_def processQuestions_def)
      from fields Some have "results_json fs = Missing \<and> init_write_error env \<noteq> None"
        and "filter is_chat evs0 = []"
        by (auto simp: initResultsFile_def is_chat_def split: file_state.splits option.splits)
      with run show ?thesis by (auto simp: is_chat_def)
    next
      case None
      with fields have ok: "\<not> (results_json fs = Missing \<and> init_write_error env \<noteq> None)"
        and chat0: "filter is_chat evs0 = []"
        by (auto simp: initResultsFile_def is_chat_def split: file_state.splits option.splits)
      show ?thesis
      proof (cases "ping_reply env")
        case (Inl err)
        with fields None have run:
          "single_run env fs =
             (evs0 @ [ChatRequest MODEL_NAME ''ping'' 5000, ErrConnection err], 1)"
          by (simp add: single_run_def processQuestions_def checkOllama_def)
        then have "fst (single_run env fs) =
            (evs0 @ [ChatRequest MODEL_NAME ''ping'' 5000]) @ [ErrConnection err]"
          and "snd (single_run env fs) = 1"
          by simp_all
        then have "\<exists>evs err. (fst (single_run env fs) = evs @ [ErrRejected err] \<and>
                    snd (single_run env fs) = 0) \<or>
                 (fst (single_run env fs) = evs @ [ErrConnection err] \<and>
                    snd (single_run env fs) = 1)"
          by blast
        with run ok chat0 show ?thesis by (simp add: is_chat_def)
      next
        case (Inr pong)
        from assms obtain err where run:
          "single_run env fs = (evs0 @ [ChatRequest MODEL_NAME ''ping'' 5000] @ [ErrRejected err], 0)"
          using fields None Inr
          by (auto simp: single_run_def processQuestions_def checkOllama_def)
        then have "fst (single_run env fs) =
            (evs0 @ [ChatRequest MODEL_NAME ''ping'' 5000]) @ [ErrRejected err]"
          and "snd (single_run env fs) = 0"
          by simp_all
        then have "\<exists>evs err. (fst (single_run env fs) = evs @ [ErrRejected err] \<and>
                    snd (single_run env fs) = 0) \<or>
                 (fst (single_run env fs) = evs @ [ErrConnection err] \<and>
                    snd (single_run env fs) = 1)"
          by blast
        with run ok chat0 show ?thesis by (simp add: is_chat_def)
      qed
    qed
  qed
qed

text \<open>
  The theorem with the questions file missing.
\<close>

theorem bad_questions_file_aborts_witness:
  "questions_json (sample_files \<lparr>questions_json := Missing\<rparr>) = Missing \<and>
   filter is_chat (fst (single_run questions_fail (sample_files \<lparr>questions_json := Missing\<rparr>)))
     = [ChatRequest MODEL_NAME ''ping'' 5000] \<and>
   single_run questions_fail (sample_files \<lparr>questions_json := Missing\<rparr>) =
     ([ChatRequest MODEL_NAME ''ping'' 5000, ErrRejected ''ENOENT''], 0)"
proof -
  let ?fs = "sample_files \<lparr>questions_json := Missing\<rparr>"
  have h: "questions_json ?fs = Missing \<or> questions_json ?fs = Unparsable"
    by simp
  have r: "results_json ?fs \<noteq> Missing"
    by (simp add: sample_files_def)
  have run: "single_run questions_fail ?fs =
     ([ChatRequest MODEL_NAME ''ping'' 5000, ErrRejected ''ENOENT''], 0)"
    by (simp add: single_run_def processQuestions_def initResultsFile_def checkOllama_def
        questions_fail_def service_down_def sample_files_def)
  from bad_questions_file_aborts [OF h, of questions_fail] r run show ?thesis
    by simp
qed

text \<open>
  C4 (as stated) fails: with the questions file missing, a chat request, the ping, is
  issued to the service before the run aborts.
\<close>

theorem missing_questions_file_counterexample:
  "single_run questions_fail (sample_files \<lparr>questions_json := Missing\<rparr>) =
     ([ChatRequest MODEL_NAME ''ping'' 5000, ErrRejected ''ENOENT''], 0)"
  by (simp add: single_run_def processQuestions_def initResultsFile_def checkOllama_def
      questions_fail_def service_down_def sample_files_def)

lemma printed_value_12: "printed_value 12 = 12"
  by code_simp

text \<open>
  C7 fails on the code: the pause is the last statement inside the \<open>try\<close>, so a
  question whose chat fails is followed by the next question with no pause. Here the
  first question times out and the second follows at once; the only pause comes after
  the second, which succeeded.
\<close>

theorem failed_question_skips_delay:
  "single_run first_fails sample_files =
     ([ChatRequest MODEL_NAME ''ping'' 5000,
       LogQuestion 1 2 ''What is vada pav?'',
       ChatRequest MODEL_NAME ''What is vada pav?'' 30000,
       ErrQuestion 1 ''timeout'',
       LogQuestion 2 2 ''Why is Mumbai the financial capital?'',
       ChatRequest MODEL_NAME ''Why is Mumbai the financial capital?'' 30000,
       LogAnswer 18 ''The stock exchange'',
       WriteFile RESULTS_FILE (JArray [second_entry]) True,
       Delay 2000],
      0)"
  by (simp add: single_run_def processQuestions_def initResultsFile_def checkOllama_def
      first_fails_def questions_fail_def service_down_def sample_files_def sample_questions_def
      ask_step_def try_ask_def result_entry_def second_entry_def DELAY_BETWEEN_QUESTIONS_def
      Let_def printed_value_12)

subsection \<open>Numbers beyond binary64\<close>








subsection \<open>The writes of a run\<close>















lemma run_absent:
  "single_run first_fails files_absent =
     ([WriteFile RESULTS_FILE (JArray []) True,
       ChatRequest MODEL_NAME ''ping'' 5000,
       LogQuestion 1 2 ''What is vada pav?'',
       ChatRequest MODEL_NAME ''What is vada pav?'' 30000,
       ErrQuestion 1 ''timeout'',
       LogQuestion 2 2 ''Why is Mumbai the financial capital?'',
       ChatRequest MODEL_NAME ''Why is Mumbai the financial capital?'' 30000,
       LogAnswer 18 ''The stock exchange'',
       WriteFile RESULTS_FILE (JArray [second_entry]) True,
       Delay 2000],
      0)"
  by (simp add: single_run_def processQuestions_def initResultsFile_def checkOllama_def
      first_fails_def questions_fail_def service_down_def sample_files_def sample_questions_def
      files_absent_def
      ask_step_def try_ask_def result_entry_def second_entry_def DELAY_BETWEEN_QUESTIONS_def
      Let_def printed_value_12)



end
